theory Spec2Isabelle
  imports Complex_Main
begin

section \<open>Hidden Markov model of whisker segments (hmm.py)\<close>

text \<open>
  The development follows \<^verbatim>\<open>src/hmm.py\<close>.  Python dictionaries whose iteration
  the code relies on are association lists (in iteration order); dictionaries that are
  only looked up are maps.  Frame, segment and trajectory identifiers are Python
  integers, hence \<^typ>\<open>int\<close>.  Floating point numbers are idealised as
  \<^typ>\<open>real\<close>; every exception the code can raise is a value of
  \<open>py_error\<close>.  The numpy functions the code calls (\<^verbatim>\<open>linspace\<close>,
  \<^verbatim>\<open>histogram\<close>, indexing) are modelled as numpy documents them.
\<close>

datatype py_error = KeyError | IndexError | ValueError | TypeError | NonFiniteIndex

type_synonym fid = int
type_synonym wid = int
type_synonym tid = int

text \<open>\<^verbatim>\<open>traj\<close>: trajectory id \<open>\<rightarrow>\<close> (frame id \<open>\<rightarrow>\<close> segment id).\<close>
type_synonym traj = "(tid \<times> (fid \<times> wid) list) list"

text \<open>\<^verbatim>\<open>wvd\<close>: frame id \<open>\<rightarrow>\<close> (segment id \<open>\<rightarrow>\<close> segment).\<close>
type_synonym 'seg wvd = "(fid \<times> (wid \<times> 'seg) list) list"

subsection \<open>The two-state classifier (class EDTwoState)\<close>

text \<open>\<^verbatim>\<open>_itertraj\<close>: yields \<open>(fid, wid)\<close> for every entry of every trajectory.\<close>
definition itertraj :: "traj \<Rightarrow> (fid \<times> wid) list" where
  "itertraj tr = concat (map snd tr)"

text \<open>The set \<^verbatim>\<open>frames\<close>: the keys of every trajectory's dictionary.\<close>
definition traj_frames :: "traj \<Rightarrow> fid set" where
  "traj_frames tr = set (concat (map (\<lambda>(t, v). map fst v) tr))"

definition int_of_bool :: "bool \<Rightarrow> int" where
  "int_of_bool b = (if b then 1 else 0)"

text \<open>
  \<^verbatim>\<open>EDTwoState._make_classifer\<close>.  The closure it returns is declared
  \<^verbatim>\<open>def classifier(wvd,traj,wid,fid)\<close>: its third parameter is named
  \<^verbatim>\<open>wid\<close> and its fourth \<^verbatim>\<open>fid\<close>, and its body is
  \<^verbatim>\<open>int( (wid,fid) in labelled ) if fid in frames else -1\<close>.  Callers pass the
  frame id third and the segment id fourth.
\<close>
definition EDTwoState_make_classifer ::
    "traj \<Rightarrow> 'seg wvd \<Rightarrow> traj \<Rightarrow> int \<Rightarrow> int \<Rightarrow> int" where
  "EDTwoState_make_classifer tr =
     (let frames = traj_frames tr;
          labelled = set (itertraj tr)
      in (\<lambda>wvd traj' wid fid.
            if fid \<in> frames then int_of_bool ((wid, fid) \<in> labelled) else - 1))"

subsection \<open>The left-right model's transition matrix (class LeftRightModel)\<close>

record LeftRightModel =
  lr_states :: "string list option"
  lr_startprob :: "string \<rightharpoonup> real"
  lr_transitions :: "string \<rightharpoonup> (string \<rightharpoonup> real)"

text \<open>\<^verbatim>\<open>zeros((n,n))\<close>.\<close>
definition zeros2 :: "nat \<Rightarrow> nat \<Rightarrow> real list list" where
  "zeros2 n m = replicate n (replicate m 0)"

text \<open>
  The inner loop \<^verbatim>\<open>for idst,dst in enumerate(self.states)\<close> of
  \<^verbatim>\<open>transition_matrix\<close>, on row \<open>isrc\<close>: the assignment is skipped when
  either lookup of \<^verbatim>\<open>self._transitions[src][dst]\<close> raises KeyError.
\<close>
fun fill_row ::
    "(string \<rightharpoonup> (string \<rightharpoonup> real)) \<Rightarrow> string \<Rightarrow> nat \<Rightarrow> string list \<Rightarrow> real list \<Rightarrow> real list" where
  "fill_row trs src idst [] row = row"
| "fill_row trs src idst (dst # ds) row =
     fill_row trs src (Suc idst) ds
       (case trs src of
          None \<Rightarrow> row
        | Some m \<Rightarrow> (case m dst of None \<Rightarrow> row | Some p \<Rightarrow> row[idst := p]))"

text \<open>The outer loop \<^verbatim>\<open>for isrc,src in enumerate(self.states)\<close>.\<close>
fun fill_rows ::
    "(string \<rightharpoonup> (string \<rightharpoonup> real)) \<Rightarrow> string list \<Rightarrow> nat \<Rightarrow> string list \<Rightarrow> real list list
       \<Rightarrow> real list list" where
  "fill_rows trs sts isrc [] T = T"
| "fill_rows trs sts isrc (src # ss) T =
     fill_rows trs sts (Suc isrc) ss (T[isrc := fill_row trs src 0 sts (T ! isrc)])"

text \<open>\<^verbatim>\<open>len(self.states)\<close> raises TypeError while \<^verbatim>\<open>self.states\<close> is None.\<close>
definition transition_matrix :: "LeftRightModel \<Rightarrow> py_error + real list list" where
  "transition_matrix m =
     (case lr_states m of
        None \<Rightarrow> Inl TypeError
      | Some sts \<Rightarrow>
          (let n = length sts in Inr (fill_rows (lr_transitions m) sts 0 sts (zeros2 n n))))"

text \<open>The entry the code leaves in cell \<open>(src, dst)\<close>.\<close>
definition stored_or_zero :: "(string \<rightharpoonup> (string \<rightharpoonup> real)) \<Rightarrow> string \<Rightarrow> string \<Rightarrow> real" where
  "stored_or_zero trs src dst =
     (case trs src of None \<Rightarrow> 0 | Some m \<Rightarrow> (case m dst of None \<Rightarrow> 0 | Some p \<Rightarrow> p))"

subsection \<open>The ordinal classifier (class EDMultiState)\<close>

text \<open>
  \<^verbatim>\<open>"junk%d" % t\<close> and \<^verbatim>\<open>"whisker%d" % t\<close>: \<open>%d\<close> writes a
  non-negative integer in decimal, most significant digit first.
\<close>
definition digit_char :: "nat \<Rightarrow> char" where
  "digit_char d = ''0123456789'' ! d"

fun fmt_d :: "nat \<Rightarrow> string" where
  "fmt_d n = (if n < 10 then [digit_char n] else fmt_d (n div 10) @ [digit_char (n mod 10)])"

definition junk_name :: "nat \<Rightarrow> string" where
  "junk_name t = ''junk'' @ fmt_d t"

definition whisker_name :: "nat \<Rightarrow> string" where
  "whisker_name t = ''whisker'' @ fmt_d t"

text \<open>
  What \<^verbatim>\<open>EDMultiState._make_classifer\<close> builds: \<^verbatim>\<open>self._nsteps\<close>, the
  dictionary \<^verbatim>\<open>classmap\<close> and the set \<^verbatim>\<open>states\<close> of discovered names.
  (The closure it returns numbers the names in the iteration order of a Python set, which the
  source does not determine; it is not needed below.)
\<close>
record ordinal_classifier =
  nsteps :: nat
  classmap :: "fid \<times> wid \<rightharpoonup> string"
  state_names :: "string set"

text \<open>
  The inner loop \<^verbatim>\<open>for wid,w in sorted(wv.items(), cmp = wrowcmp)\<close> on one frame,
  started with \<^verbatim>\<open>t = 0\<close>: a labelled segment is named \<^verbatim>\<open>whisker<t>\<close> and
  increments \<open>t\<close>, any other segment is named \<^verbatim>\<open>junk<t>\<close>. It returns the
  final \<open>t\<close>.
\<close>
fun label_frame ::
  "(fid \<times> wid) set \<Rightarrow> fid \<Rightarrow> (wid \<times> 'seg) list \<Rightarrow> nat \<Rightarrow> (fid \<times> wid \<rightharpoonup> string) \<Rightarrow> string set
     \<Rightarrow> nat \<times> (fid \<times> wid \<rightharpoonup> string) \<times> string set" where
  "label_frame labelled f [] t cm states = (t, cm, states)"
| "label_frame labelled f ((w, s) # ws) t cm states =
     (if (f, w) \<in> labelled
      then label_frame labelled f ws (t + 1)
             (cm((f, w) \<mapsto> whisker_name t)) (insert (whisker_name t) states)
      else label_frame labelled f ws t
             (cm((f, w) \<mapsto> junk_name t)) (insert (junk_name t) states))"

text \<open>
  The outer loop \<^verbatim>\<open>for fid,wv in wvd.iteritems()\<close>. \<^verbatim>\<open>wcmp\<close> compares
  \<^verbatim>\<open>w.y[0]\<close>, here the parameter \<open>y0\<close>; \<^verbatim>\<open>sorted\<close> is stable, as
  \<^const>\<open>sort_key\<close> is. After each frame
  \<^verbatim>\<open>self._nsteps = max(self._nsteps,t)\<close>.
\<close>
fun label_frames ::
  "('seg \<Rightarrow> real) \<Rightarrow> (fid \<times> wid) set \<Rightarrow> 'seg wvd \<Rightarrow> ordinal_classifier \<Rightarrow> ordinal_classifier" where
  "label_frames y0 labelled [] c = c"
| "label_frames y0 labelled ((f, wv) # rest) c =
     (case label_frame labelled f (sort_key (\<lambda>(w, s). y0 s) wv) 0 (classmap c) (state_names c) of
        (t, cm', states') \<Rightarrow>
          label_frames y0 labelled rest
            \<lparr>nsteps = max (nsteps c) t, classmap = cm', state_names = states'\<rparr>)"

definition EDMultiState_make_classifer ::
  "('seg \<Rightarrow> real) \<Rightarrow> 'seg wvd \<Rightarrow> traj \<Rightarrow> ordinal_classifier" where
  "EDMultiState_make_classifer y0 wvd tr =
     label_frames y0 (set (itertraj tr)) wvd \<lparr>nsteps = 0, classmap = Map.empty, state_names = {}\<rparr>"

text \<open>
  The loop invariant used for the size of the name set: the names seen so far are finitely
  many, hold every \<^verbatim>\<open>whisker<t>\<close> below \<open>nsteps\<close>, and nothing beyond
  \<^verbatim>\<open>junk<nsteps>\<close>.
\<close>
definition names_inv :: "ordinal_classifier \<Rightarrow> bool" where
  "names_inv c \<longleftrightarrow> finite (state_names c) \<and> whisker_name ` {..<nsteps c} \<subseteq> state_names c \<and>
     state_names c \<subseteq> whisker_name ` {..<nsteps c} \<union> junk_name ` {..nsteps c}"

subsection \<open>Emission distributions (class EmmissionDistributions)\<close>

text \<open>
  The fields of an \<^verbatim>\<open>EmmissionDistributions\<close> object. \<^verbatim>\<open>self._features\<close>
  pairs a name with a function from the module \<^verbatim>\<open>features\<close>; only the functions
  matter, and they are opaque maps from a segment to a number.
  \<^verbatim>\<open>self._distributions\<close> maps a state name to a Python list of arrays of log2
  probabilities.
\<close>
record 'seg estimator =
  features :: "('seg \<Rightarrow> real) list"
  feature_bin_deltas :: "real list"
  feature_bin_mins :: "real list"
  states :: "string list"
  distributions :: "string \<rightharpoonup> real list list"
  classifier :: "'seg wvd \<Rightarrow> traj \<Rightarrow> int \<Rightarrow> int \<Rightarrow> int"

text \<open>
  A row of the table \<^verbatim>\<open>data\<close>: class id, frame id, segment id, then the feature
  values (columns 3 onwards).
\<close>
record row =
  cls :: int
  row_fid :: int
  row_wid :: int
  fvals :: "real list"

text \<open>
  \<^verbatim>\<open>__init__\<close> without the optional call of \<^verbatim>\<open>estimate\<close>.
\<close>
definition EmmissionDistributions_init ::
  "('seg \<Rightarrow> real) list \<Rightarrow> string list \<Rightarrow> ('seg wvd \<Rightarrow> traj \<Rightarrow> int \<Rightarrow> int \<Rightarrow> int) \<Rightarrow> 'seg estimator" where
  "EmmissionDistributions_init feats sts clf =
     \<lparr>features = feats,
      feature_bin_deltas = replicate (length feats) 0,
      feature_bin_mins = replicate (length feats) 0,
      states = sts,
      distributions = map_of (map (\<lambda>s. (s, [])) sts),
      classifier = clf\<rparr>"

text \<open>
  \<^verbatim>\<open>feature(seg)\<close>.
\<close>
definition feature :: "'seg estimator \<Rightarrow> 'seg \<Rightarrow> real list" where
  "feature st seg = map (\<lambda>f. f seg) (features st)"

text \<open>
  \<^verbatim>\<open>_all_features\<close>: one row per segment of \<^verbatim>\<open>wvd\<close>, in iteration
  order, classified by \<^verbatim>\<open>self._classifier(wvd,traj,fid,wid)\<close>.
\<close>
definition all_features :: "'seg estimator \<Rightarrow> 'seg wvd \<Rightarrow> traj \<Rightarrow> row list" where
  "all_features st wvd tr =
     concat (map (\<lambda>(f, v). map (\<lambda>(w, s).
        \<lparr>cls = classifier st wvd tr f w, row_fid = f, row_wid = w, fvals = feature st s\<rparr>) v) wvd)"

text \<open>
  The \<^verbatim>\<open>else\<close> branch of \<^verbatim>\<open>estimate\<close>: a supplied table gets its
  class column recomputed.
\<close>
definition reclassify :: "'seg estimator \<Rightarrow> 'seg wvd \<Rightarrow> traj \<Rightarrow> row list \<Rightarrow> row list" where
  "reclassify st wvd tr data =
     map (\<lambda>r. r\<lparr>cls := classifier st wvd tr (row_fid r) (row_wid r)\<rparr>) data"

text \<open>
  \<^verbatim>\<open>data[:,ic]\<close> with \<^verbatim>\<open>ic = 3+i\<close>: IndexError when the table has no
  such column.
\<close>
definition column :: "nat \<Rightarrow> row list \<Rightarrow> py_error + real list" where
  "column i data =
     (if list_all (\<lambda>r. i < length (fvals r)) data then Inr (map (\<lambda>r. fvals r ! i) data)
      else Inl IndexError)"

text \<open>
  \<^verbatim>\<open>numpy.linspace(start, stop, num)\<close> for \<open>num \<ge> 2\<close>: \<open>num\<close> points
  \<^verbatim>\<open>arange(0, num) * step + start\<close> with \<open>step = (stop - start)/(num - 1)\<close>,
  the last one set to \<open>stop\<close>.
\<close>
definition linspace :: "real \<Rightarrow> real \<Rightarrow> nat \<Rightarrow> real list" where
  "linspace start stop num =
     (let step = (stop - start) / real (num - 1)
      in (map (\<lambda>j. real j * step + start) [0..<num])[num - 1 := stop])"

text \<open>
  \<^verbatim>\<open>numpy.histogram(a, bins = b)[0]\<close> for a sequence \<open>b\<close> of bin edges, as
  numpy documents it: one count per pair of neighbouring edges, every bin half-open
  \<open>[lo, hi)\<close> but the last, which is closed; values outside the edges are not
  counted. (The edges passed below come from \<open>linspace\<close> with \<open>start \<le> stop\<close>
  and are nondecreasing, which numpy requires.)
\<close>
fun histogram :: "real list \<Rightarrow> real list \<Rightarrow> nat list" where
  "histogram a [] = []"
| "histogram a [e] = []"
| "histogram a [lo, hi] = [length (filter (\<lambda>x. lo \<le> x \<and> x \<le> hi) a)]"
| "histogram a (lo # hi # es) =
     length (filter (\<lambda>x. lo \<le> x \<and> x < hi) a) # histogram a (hi # es)"

text \<open>
  \<^verbatim>\<open>v[mask]\<close> for a boolean mask.
\<close>
definition masked :: "real list \<Rightarrow> bool list \<Rightarrow> real list" where
  "masked v msk = map fst (filter snd (zip v msk))"

text \<open>
  Lines 109 to 112 for state index \<open>k\<close>: the rows of class \<open>k\<close> are
  histogrammed over the edges \<open>b\<close>, one is added to every count, and the counts are
  divided by their sum.
\<close>
definition bin_probs :: "row list \<Rightarrow> real list \<Rightarrow> real list \<Rightarrow> nat \<Rightarrow> real list" where
  "bin_probs data v b k =
     (let msk = map (\<lambda>r. cls r = int k) data;
          counts = map (\<lambda>c. real c + 1) (histogram (masked v msk) b)
      in map (\<lambda>c. c / sum_list counts) counts)"

text \<open>
  The array appended in line 113: \<^verbatim>\<open>log2(counts)\<close>.
\<close>
definition log2_hist :: "row list \<Rightarrow> real list \<Rightarrow> real list \<Rightarrow> nat \<Rightarrow> real list" where
  "log2_hist data v b k = map (log 2) (bin_probs data v b k)"

text \<open>
  The inner loop \<^verbatim>\<open>for i,state in enumerate(self._states)\<close>:
  \<^verbatim>\<open>self._distributions[state].append(...)\<close>, KeyError when the state is no key.
  (The loop reuses the name \<open>i\<close> of the outer loop; the outer loop has read it
  before and gets it afresh from its iterator.)
\<close>
fun estimate_states ::
  "row list \<Rightarrow> real list \<Rightarrow> real list \<Rightarrow> nat \<Rightarrow> string list \<Rightarrow> (string \<rightharpoonup> real list list)
     \<Rightarrow> py_error + (string \<rightharpoonup> real list list)" where
  "estimate_states data v b k [] d = Inr d"
| "estimate_states data v b k (state # ss) d =
     (case d state of
        None \<Rightarrow> Inl KeyError
      | Some hs \<Rightarrow> estimate_states data v b (Suc k) ss (d(state \<mapsto> hs @ [log2_hist data v b k])))"

text \<open>
  The outer loop \<^verbatim>\<open>for i in xrange(nfeat)\<close>. \<^verbatim>\<open>v.min()\<close> raises
  ValueError on an empty column. The extrema are those of the whole column \<open>v\<close>; the
  edges are \<^verbatim>\<open>linspace(mn, mx, 64)\<close>. The two arrays of bin widths and minima
  have one entry per feature since \<^verbatim>\<open>__init__\<close>, so the assignments at
  index \<open>i\<close> are in range.
\<close>
fun estimate_features :: "row list \<Rightarrow> nat list \<Rightarrow> 'seg estimator \<Rightarrow> py_error + 'seg estimator" where
  "estimate_features data [] st = Inr st"
| "estimate_features data (i # is) st =
     (case column i data of
        Inl e \<Rightarrow> Inl e
      | Inr v \<Rightarrow>
          if v = [] then Inl ValueError
          else
            (let mn = Min (set v); mx = Max (set v);
                 b = linspace mn mx 64;
                 st1 = st\<lparr>feature_bin_deltas := (feature_bin_deltas st)[i := b ! 1 - b ! 0],
                          feature_bin_mins := (feature_bin_mins st)[i := b ! 0]\<rparr>
             in case estimate_states data v b 0 (states st1) (distributions st1) of
                  Inl e \<Rightarrow> Inl e
                | Inr d \<Rightarrow> estimate_features data is (st1\<lparr>distributions := d\<rparr>)))"

text \<open>
  The table \<^verbatim>\<open>estimate\<close> works on.
\<close>
definition training_rows :: "'seg estimator \<Rightarrow> 'seg wvd \<Rightarrow> traj \<Rightarrow> row list option \<Rightarrow> row list" where
  "training_rows st wvd tr data_opt =
     (case data_opt of None \<Rightarrow> all_features st wvd tr | Some d \<Rightarrow> reclassify st wvd tr d)"

text \<open>
  \<^verbatim>\<open>EmmissionDistributions.estimate(wvd, traj, data)\<close>; \<open>None\<close> for an
  absent \<^verbatim>\<open>data\<close>. The updated object is returned.
\<close>
definition estimate ::
  "'seg estimator \<Rightarrow> 'seg wvd \<Rightarrow> traj \<Rightarrow> row list option \<Rightarrow> py_error + 'seg estimator" where
  "estimate st wvd tr data_opt =
     estimate_features (training_rows st wvd tr data_opt) [0..<length (features st)] st"

text \<open>
  \<^verbatim>\<open>_discritize\<close>: \<^verbatim>\<open>floor((val-bmin)/db)\<close> along
  \<^verbatim>\<open>zip(fv, deltas, mins)\<close>. The values are numpy floats: dividing by a zero
  width gives an infinity or nan (no exception), here \<open>None\<close>.
\<close>
definition discritize :: "'seg estimator \<Rightarrow> real list \<Rightarrow> int option list" where
  "discritize st fv =
     map (\<lambda>(val, db, bmin). if db = 0 then None else Some \<lfloor>(val - bmin) / db\<rfloor>)
       (zip fv (zip (feature_bin_deltas st) (feature_bin_mins st)))"

text \<open>
  Indexing a sequence of length \<open>n\<close> with an integer: indices \<open>-n \<le> j < 0\<close>
  count from the end, anything else outside \<open>0 \<le> j < n\<close> raises IndexError.
\<close>
definition py_index :: "'a list \<Rightarrow> int \<Rightarrow> py_error + 'a" where
  "py_index xs j =
     (let n = int (length xs)
      in if 0 \<le> j \<and> j < n then Inr (xs ! nat j)
         else if - n \<le> j \<and> j < 0 then Inr (xs ! nat (n + j))
         else Inl IndexError)"

text \<open>
  \<^verbatim>\<open>[ self._distributions[state][i][j] for i,j in enumerate(idx) ]\<close>: KeyError for
  an unknown state, IndexError when the list has no \<open>i\<close>-th array or the array no
  position \<open>j\<close>; an infinity or nan is no index. (The indices are floats with
  integral values; the numpy this Python 2 code is written for converts them to
  integers when indexing.)
\<close>
fun lookup_logp ::
  "(string \<rightharpoonup> real list list) \<Rightarrow> string \<Rightarrow> nat \<Rightarrow> int option list \<Rightarrow> py_error + real list" where
  "lookup_logp d state i [] = Inr []"
| "lookup_logp d state i (j # js) =
     (case d state of
        None \<Rightarrow> Inl KeyError
      | Some hs \<Rightarrow>
          if length hs \<le> i then Inl IndexError
          else (case j of
                  None \<Rightarrow> Inl NonFiniteIndex
                | Some j' \<Rightarrow>
                    (case py_index (hs ! i) j' of
                       Inl e \<Rightarrow> Inl e
                     | Inr p \<Rightarrow>
                         (case lookup_logp d state (Suc i) js of
                            Inl e \<Rightarrow> Inl e
                          | Inr ps \<Rightarrow> Inr (p # ps)))))"

text \<open>
  \<^verbatim>\<open>evaluate(seg, state)\<close>.
\<close>
definition evaluate :: "'seg estimator \<Rightarrow> 'seg \<Rightarrow> string \<Rightarrow> py_error + real" where
  "evaluate st seg state =
     (case lookup_logp (distributions st) state 0 (discritize st (feature st seg)) of
        Inl e \<Rightarrow> Inl e
      | Inr logp \<Rightarrow> Inr (sum_list logp))"

text \<open>
  Notions for stating what \<^verbatim>\<open>estimate\<close> leaves in the object: the column of
  feature \<open>i\<close>, its 64 bin edges, the histograms appended for a state name during
  one pass over the states and during the pass over the features, and the bin index of
  a segment's feature \<open>i\<close>.
\<close>
definition col_vals :: "nat \<Rightarrow> row list \<Rightarrow> real list" where
  "col_vals i data = map (\<lambda>r. fvals r ! i) data"

definition bin_edges :: "nat \<Rightarrow> row list \<Rightarrow> real list" where
  "bin_edges i data = linspace (Min (set (col_vals i data))) (Max (set (col_vals i data))) 64"

fun state_hists :: "row list \<Rightarrow> real list \<Rightarrow> real list \<Rightarrow> nat \<Rightarrow> string list \<Rightarrow> string \<Rightarrow> real list list" where
  "state_hists data v b k [] s = []"
| "state_hists data v b k (x # xs) s =
     (if x = s then [log2_hist data v b k] else []) @ state_hists data v b (Suc k) xs s"

fun feature_hists :: "row list \<Rightarrow> nat list \<Rightarrow> string list \<Rightarrow> string \<Rightarrow> real list list" where
  "feature_hists data [] sts s = []"
| "feature_hists data (i # is) sts s =
     state_hists data (col_vals i data) (bin_edges i data) 0 sts s @ feature_hists data is sts s"

definition bin_index :: "'seg estimator \<Rightarrow> 'seg \<Rightarrow> nat \<Rightarrow> int" where
  "bin_index st seg i =
     \<lfloor>((features st ! i) seg - feature_bin_mins st ! i) / feature_bin_deltas st ! i\<rfloor>"

text \<open>
  The estimators a program can hold: a new one, and one on which
  \<^verbatim>\<open>estimate\<close> has returned.
\<close>
inductive fitted :: "'seg estimator \<Rightarrow> bool" where
  fresh: "fitted (EmmissionDistributions_init feats sts clf)"
| again: "fitted st \<Longrightarrow> estimate st wvd tr dopt = Inr st' \<Longrightarrow> fitted st'"

subsection \<open>Time-independent training (LeftRightModel.train\_time\_independent)\<close>

text \<open>
  \<^verbatim>\<open>train_time_independent\<close>, up to the assignment of
  \<^verbatim>\<open>self._simple_model\<close>. The statements \<^verbatim>\<open>S[prev]++;\<close>,
  \<^verbatim>\<open>T[prev,next] ++;\<close> and \<^verbatim>\<open>E[prev]++;\<close> are read as increments by
  one. The counts are exact, so they are natural numbers; numpy divides a count vector by
  its sum without raising, and the quotient \<open>0/0\<close> is nan. The values that the
  normalisation and \<^verbatim>\<open>log2\<close> can produce are a finite number, an
  infinity or nan.
\<close>
datatype fl = Fin real | PosInf | NegInf | NaN

definition fl_div :: "nat \<Rightarrow> nat \<Rightarrow> fl" where
  "fl_div c t = (if t = 0 then (if c = 0 then NaN else PosInf) else Fin (real c / real t))"

definition fl_log2 :: "fl \<Rightarrow> fl" where
  "fl_log2 x = (case x of
       Fin r \<Rightarrow> if r = 0 then NegInf else if r < 0 then NaN else Fin (log 2 r)
     | PosInf \<Rightarrow> PosInf | NegInf \<Rightarrow> NaN | NaN \<Rightarrow> NaN)"

definition fl_exp2 :: "fl \<Rightarrow> fl" where
  "fl_exp2 x = (case x of Fin r \<Rightarrow> Fin (2 powr r) | PosInf \<Rightarrow> PosInf | NegInf \<Rightarrow> Fin 0 | NaN \<Rightarrow> NaN)"

text \<open>
  \<^verbatim>\<open>xs[i] += 1\<close>.
\<close>
definition bump :: "nat \<Rightarrow> nat list \<Rightarrow> nat list" where
  "bump i xs = xs[i := xs ! i + 1]"

text \<open>
  An index into an array of length 2: the classifier answers -1, 0 or 1, and numpy
  reads index -1 as the last position.
\<close>
definition idx2 :: "int \<Rightarrow> nat" where
  "idx2 j = (if j < 0 then nat (2 + j) else nat j)"

text \<open>
  \<^verbatim>\<open>for wid in wids[1:]\<close>: count the transition from \<open>prev\<close> to the class
  of the next id.
\<close>
fun count_transitions ::
  "(wid \<Rightarrow> int) \<Rightarrow> wid list \<Rightarrow> int \<Rightarrow> nat list list \<Rightarrow> int \<times> nat list list" where
  "count_transitions cl [] prev T = (prev, T)"
| "count_transitions cl (w # ws) prev T =
     (let next = cl w
      in count_transitions cl ws next (T[idx2 prev := bump (idx2 next) (T ! idx2 prev)]))"

text \<open>
  \<^verbatim>\<open>for fid,wv in wvd.iteritems()\<close>. The source takes
  \<^verbatim>\<open>wids = wvd.keys()\<close> (the keys of the outer dictionary) in every iteration;
  \<^verbatim>\<open>wids[0]\<close> raises IndexError on an empty list. A frame whose first class is
  -1 is skipped.
\<close>
fun count_frames ::
  "(fid \<Rightarrow> wid \<Rightarrow> int) \<Rightarrow> int list \<Rightarrow> fid list \<Rightarrow> nat list \<times> nat list list \<times> nat list
     \<Rightarrow> py_error + nat list \<times> nat list list \<times> nat list" where
  "count_frames classify wids [] c = Inr c"
| "count_frames classify wids (f # fs) (S, T, E) =
     (case wids of
        [] \<Rightarrow> Inl IndexError
      | w0 # rest \<Rightarrow>
          (let prev = classify f w0
           in if prev = - 1 then count_frames classify wids fs (S, T, E)
              else (case count_transitions (classify f) rest prev T of
                      (prev', T') \<Rightarrow>
                        count_frames classify wids fs
                          (bump (idx2 prev) S, T', bump (idx2 prev') E))))"

text \<open>
  \<^verbatim>\<open>S /= S.sum()\<close> followed by \<^verbatim>\<open>log2\<close>.
\<close>
definition normalize_log2 :: "nat list \<Rightarrow> fl list" where
  "normalize_log2 cs = map (\<lambda>c. fl_log2 (fl_div c (sum_list cs))) cs"

text \<open>
  The three tables \<open>(S, T, E)\<close> stored in \<^verbatim>\<open>self._simple_model\<close>. The
  classifier is the one of \<^verbatim>\<open>EDTwoState(wvd, traj, do_estimate = False)\<close>.
\<close>
definition train_time_independent ::
  "'seg wvd \<Rightarrow> traj \<Rightarrow> py_error + fl list \<times> fl list list \<times> fl list" where
  "train_time_independent wvd tr =
     (let classify = EDTwoState_make_classifer tr wvd tr;
          wids = map fst wvd
      in case count_frames classify wids (map fst wvd) ([0, 0], [[0, 0], [0, 0]], [0, 0]) of
           Inl e \<Rightarrow> Inl e
         | Inr (S, T, E) \<Rightarrow> Inr (normalize_log2 S, map normalize_log2 T, normalize_log2 E))"

subsection \<open>Example inputs\<close>

text \<open>
  A classifier for which frame 0 has ground truth (every segment of it is junk, class 0)
  and no other frame has.
\<close>
definition ex_classifier :: "real wvd \<Rightarrow> traj \<Rightarrow> int \<Rightarrow> int \<Rightarrow> int" where
  "ex_classifier wvd tr f w = (if f = 0 then 0 else - 1)"

text \<open>
  An estimator with one feature, the segment itself, and one state.
\<close>
definition ex_estimator :: "real estimator" where
  "ex_estimator = EmmissionDistributions_init [\<lambda>x. x] [''junk''] ex_classifier"

text \<open>
  Training tables, as the \<^verbatim>\<open>data\<close> argument of \<^verbatim>\<open>estimate\<close>: two
  segments of frame 0 with feature values 0 and 63; the same with a segment of the
  unlabelled frame 1; three segments of frame 0.
\<close>
definition ex_rows :: "row list" where
  "ex_rows = [\<lparr>cls = 0, row_fid = 0, row_wid = 0, fvals = [0]\<rparr>,
              \<lparr>cls = 0, row_fid = 0, row_wid = 1, fvals = [63]\<rparr>]"

definition ex_rows_unlabelled :: "row list" where
  "ex_rows_unlabelled = [\<lparr>cls = 0, row_fid = 0, row_wid = 0, fvals = [0]\<rparr>,
              \<lparr>cls = 0, row_fid = 0, row_wid = 1, fvals = [1]\<rparr>,
              \<lparr>cls = 0, row_fid = 1, row_wid = 0, fvals = [126]\<rparr>]"

definition ex_rows_more :: "row list" where
  "ex_rows_more = [\<lparr>cls = 0, row_fid = 0, row_wid = 0, fvals = [0]\<rparr>,
                   \<lparr>cls = 0, row_fid = 0, row_wid = 1, fvals = [0]\<rparr>,
                   \<lparr>cls = 0, row_fid = 0, row_wid = 2, fvals = [63]\<rparr>]"

section \<open>Theorems\<close>

subsection \<open>transition\_matrix\<close>

lemma length_fill_row: "length (fill_row trs src idst ds row) = length row"
  by (induction ds arbitrary: idst row) (auto split: option.splits)

lemma fill_row_nth:
  "idst + length ds \<le> length row \<Longrightarrow> j < length row \<Longrightarrow>
   fill_row trs src idst ds row ! j =
     (if idst \<le> j \<and> j < idst + length ds
      then (case trs src of
              None \<Rightarrow> row ! j
            | Some m \<Rightarrow> (case m (ds ! (j - idst)) of None \<Rightarrow> row ! j | Some p \<Rightarrow> p))
      else row ! j)"
proof (induction ds arbitrary: idst row)
  case Nil
  then show ?case by simp
next
  case (Cons dst ds)
  let ?row' = "(case trs src of
          None \<Rightarrow> row
        | Some m \<Rightarrow> (case m dst of None \<Rightarrow> row | Some p \<Rightarrow> row[idst := p]))"
  have len: "length ?row' = length row" by (simp split: option.splits)
  have ih: "fill_row trs src (Suc idst) ds ?row' ! j =
     (if Suc idst \<le> j \<and> j < Suc idst + length ds
      then (case trs src of
              None \<Rightarrow> ?row' ! j
            | Some m \<Rightarrow> (case m (ds ! (j - Suc idst)) of None \<Rightarrow> ?row' ! j | Some p \<Rightarrow> p))
      else ?row' ! j)"
    using Cons.prems by (intro Cons.IH) (simp_all add: len)
  show ?case
  proof (cases "j = idst")
    case True
    then show ?thesis using Cons.prems ih by (simp split: option.splits)
  next
    case False
    then have same: "?row' ! j = row ! j" by (simp split: option.splits)
    show ?thesis
    proof (cases "Suc idst \<le> j \<and> j < Suc idst + length ds")
      case True
      then have "(dst # ds) ! (j - idst) = ds ! (j - Suc idst)"
        by (simp add: nth_Cons split: nat.splits) (metis Suc_diff_Suc Suc_le_lessD nat.inject)
      with True False show ?thesis using ih same by (simp split: option.splits)
    next
      case False
      with \<open>j \<noteq> idst\<close> show ?thesis using ih same by auto
    qed
  qed
qed

lemma length_fill_rows: "length (fill_rows trs sts isrc ss T) = length T"
  by (induction ss arbitrary: isrc T) auto

lemma fill_rows_nth:
  "isrc + length ss \<le> length T \<Longrightarrow> i < length T \<Longrightarrow>
   fill_rows trs sts isrc ss T ! i =
     (if isrc \<le> i \<and> i < isrc + length ss
      then fill_row trs (ss ! (i - isrc)) 0 sts (T ! i)
      else T ! i)"
proof (induction ss arbitrary: isrc T)
  case Nil
  then show ?case by auto
next
  case (Cons src ss)
  let ?T' = "T[isrc := fill_row trs src 0 sts (T ! isrc)]"
  have ih: "fill_rows trs sts (Suc isrc) ss ?T' ! i =
     (if Suc isrc \<le> i \<and> i < Suc isrc + length ss
      then fill_row trs (ss ! (i - Suc isrc)) 0 sts (?T' ! i)
      else ?T' ! i)"
    using Cons.prems by (intro Cons.IH) simp_all
  show ?case
  proof (cases "i = isrc")
    case True
    then show ?thesis using Cons.prems ih by simp
  next
    case False
    show ?thesis
    proof (cases "Suc isrc \<le> i \<and> i < Suc isrc + length ss")
      case True
      then have "(src # ss) ! (i - isrc) = ss ! (i - Suc isrc)"
        by (simp add: nth_Cons split: nat.splits) (metis Suc_diff_Suc Suc_le_lessD nat.inject)
      with True False show ?thesis using ih by simp
    next
      case False
      with \<open>i \<noteq> isrc\<close> show ?thesis using ih by auto
    qed
  qed
qed

text \<open>
  C10.  When the states list is set, \<^verbatim>\<open>transition_matrix()\<close> returns (it raises
  nothing on a missing entry) an n-by-n matrix, n the number of states, whose entry
  (source, destination) is the stored log2 probability when the transition map holds
  that pair, and 0.0 when it does not.
\<close>
theorem transition_matrix_entries:
  assumes "lr_states m = Some sts"
  shows "\<exists>T. transition_matrix m = Inr T \<and> length T = length sts \<and>
           (\<forall>i < length sts. length (T ! i) = length sts \<and>
              (\<forall>j < length sts.
                 T ! i ! j = stored_or_zero (lr_transitions m) (sts ! i) (sts ! j)))"
proof -
  let ?n = "length sts"
  let ?T = "fill_rows (lr_transitions m) sts 0 sts (zeros2 ?n ?n)"
  have ret: "transition_matrix m = Inr ?T"
    using assms by (simp add: transition_matrix_def Let_def)
  have len: "length ?T = ?n"
    by (simp add: length_fill_rows zeros2_def)
  have row: "?T ! i = fill_row (lr_transitions m) (sts ! i) 0 sts (replicate ?n 0)"
    if "i < ?n" for i
    using that fill_rows_nth [of 0 sts "zeros2 ?n ?n" i "lr_transitions m" sts]
    by (simp add: zeros2_def)
  have cell: "?T ! i ! j = stored_or_zero (lr_transitions m) (sts ! i) (sts ! j)"
    if "i < ?n" "j < ?n" for i j
    using that row [OF that(1)]
      fill_row_nth [of 0 sts "replicate ?n 0" j "lr_transitions m" "sts ! i"]
    by (simp add: stored_or_zero_def split: option.splits)
  have rlen: "length (?T ! i) = ?n" if "i < ?n" for i
    using row [OF that] by (simp add: length_fill_row)
  show ?thesis
    using ret len cell rlen by blast
qed

theorem transition_matrix_entries_witness:
  "\<exists>T. transition_matrix
          \<lparr>lr_states = Some [''junk0'', ''whisker0''], lr_startprob = Map.empty,
           lr_transitions = [''junk0'' \<mapsto> [''whisker0'' \<mapsto> - 1]]\<rparr> = Inr T \<and>
       length T = 2 \<and> length (T ! 0) = 2 \<and> T ! 0 ! 1 = - 1 \<and> T ! 1 ! 0 = 0"
  using transition_matrix_entries
    [of "\<lparr>lr_states = Some [''junk0'', ''whisker0''], lr_startprob = Map.empty,
          lr_transitions = [''junk0'' \<mapsto> [''whisker0'' \<mapsto> - 1]]\<rparr>"
        "[''junk0'', ''whisker0'']"]
  by (auto simp: stored_or_zero_def)

subsection \<open>The two-state classifier\<close>

text \<open>
  C5 (the code at the failing input).  With the single trajectory
  \<^verbatim>\<open>{0: {5: 7}}\<close> the pair (frame 5, segment 7) is labelled and frame 5 is a
  labelled frame, yet the classifier answers -1: it looks the segment id 7 up among
  the frame ids.
\<close>
theorem EDTwoState_classifier_labelled_pair_unlabelled:
  "(5, 7) \<in> set (itertraj [(0, [(5, 7)])]) \<and> 5 \<in> traj_frames [(0, [(5, 7)])] \<and>
   EDTwoState_make_classifer [(0, [(5, 7)])] ([] :: unit wvd) [(0, [(5, 7)])] 5 7 = - 1"
  by (simp add: EDTwoState_make_classifer_def itertraj_def traj_frames_def int_of_bool_def)

subsection \<open>The ordinal classifier\<close>

lemma fmt_d_nonempty: "fmt_d n \<noteq> []"
  by (subst fmt_d.simps) simp

lemma digit_char_inj: "a < 10 \<Longrightarrow> b < 10 \<Longrightarrow> digit_char a = digit_char b \<Longrightarrow> a = b"
proof -
  assume a: "a < 10" and b: "b < 10" and e: "digit_char a = digit_char b"
  have d: "distinct ''0123456789''" by simp
  have l: "length ''0123456789'' = 10" by simp
  show ?thesis using e a b nth_eq_iff_index_eq [OF d, of a b] unfolding digit_char_def l by simp
qed

lemma fmt_d_inj: "fmt_d n = fmt_d m \<Longrightarrow> n = m"
proof (induction n arbitrary: m rule: fmt_d.induct)
  case (1 n)
  show ?case
  proof (cases "n < 10")
    case True
    show ?thesis
    proof (cases "m < 10")
      case m: True
      from "1.prems" True m have "digit_char n = digit_char m"
        by (subst (asm) fmt_d.simps, subst (asm) (2) fmt_d.simps) simp
      then show ?thesis using True m digit_char_inj by blast
    next
      case m: False
      from "1.prems" True m have "fmt_d (m div 10) = []"
        by (subst (asm) fmt_d.simps, subst (asm) (2) fmt_d.simps) simp
      then show ?thesis using fmt_d_nonempty by blast
    qed
  next
    case False
    show ?thesis
    proof (cases "m < 10")
      case m: True
      from "1.prems" False m have "fmt_d (n div 10) = []"
        by (subst (asm) fmt_d.simps, subst (asm) (2) fmt_d.simps) simp
      then show ?thesis using fmt_d_nonempty by blast
    next
      case m: False
      from "1.prems" False m
      have e: "fmt_d (n div 10) = fmt_d (m div 10)" "digit_char (n mod 10) = digit_char (m mod 10)"
        by (subst (asm) fmt_d.simps, subst (asm) (2) fmt_d.simps, simp)+
      from "1.IH" [OF False e(1)] have "n div 10 = m div 10" .
      moreover have "n mod 10 = m mod 10"
        using e(2) digit_char_inj [of "n mod 10" "m mod 10"] by simp
      ultimately show ?thesis by (metis div_mult_mod_eq)
    qed
  qed
qed

lemma inj_whisker_name: "inj whisker_name"
  by (rule injI) (simp add: whisker_name_def fmt_d_inj)

lemma inj_junk_name: "inj junk_name"
  by (rule injI) (simp add: junk_name_def fmt_d_inj)

lemma label_frame_names:
  "label_frame labelled f ws t cm S = (t', cm', S') \<Longrightarrow>
     t \<le> t' \<and> S \<subseteq> S' \<and> (finite S \<longrightarrow> finite S') \<and> whisker_name ` {t..<t'} \<subseteq> S' \<and>
     S' \<subseteq> S \<union> whisker_name ` {t..<t'} \<union> junk_name ` {t..t'}"
proof (induction ws arbitrary: t cm S)
  case Nil
  then show ?case by auto
next
  case (Cons p ws)
  obtain w s where p: "p = (w, s)" by (cases p)
  show ?case
  proof (cases "(f, w) \<in> labelled")
    case True
    with Cons.prems p
    have "label_frame labelled f ws (t + 1) (cm((f, w) \<mapsto> whisker_name t))
            (insert (whisker_name t) S) = (t', cm', S')" by simp
    from Cons.IH [OF this]
    have ih: "t + 1 \<le> t'" "insert (whisker_name t) S \<subseteq> S'" "finite S \<longrightarrow> finite S'"
      "whisker_name ` {t + 1..<t'} \<subseteq> S'"
      "S' \<subseteq> insert (whisker_name t) S \<union> whisker_name ` {t + 1..<t'} \<union> junk_name ` {t + 1..t'}"
      by auto
    have split: "{t..<t'} = insert t {t + 1..<t'}" using ih(1) by auto
    have "whisker_name ` {t..<t'} \<subseteq> S'" using ih(2,4) unfolding split by auto
    moreover have "S' \<subseteq> S \<union> whisker_name ` {t..<t'} \<union> junk_name ` {t..t'}"
    proof
      fix x assume "x \<in> S'"
      with ih(5) consider "x = whisker_name t" | "x \<in> S" | "x \<in> whisker_name ` {t + 1..<t'}"
        | "x \<in> junk_name ` {t + 1..t'}" by auto
      then show "x \<in> S \<union> whisker_name ` {t..<t'} \<union> junk_name ` {t..t'}"
        unfolding split by cases auto
    qed
    ultimately show ?thesis using ih(1,2,3) by auto
  next
    case False
    with Cons.prems p
    have "label_frame labelled f ws t (cm((f, w) \<mapsto> junk_name t))
            (insert (junk_name t) S) = (t', cm', S')" by simp
    from Cons.IH [OF this]
    have ih: "t \<le> t'" "insert (junk_name t) S \<subseteq> S'" "finite S \<longrightarrow> finite S'"
      "whisker_name ` {t..<t'} \<subseteq> S'"
      "S' \<subseteq> insert (junk_name t) S \<union> whisker_name ` {t..<t'} \<union> junk_name ` {t..t'}"
      by auto
    have "junk_name t \<in> junk_name ` {t..t'}" using ih(1) by auto
    with ih show ?thesis by auto
  qed
qed

lemma label_frames_inv: "names_inv c \<Longrightarrow> names_inv (label_frames y0 labelled wvd c)"
proof (induction wvd arbitrary: c)
  case Nil
  then show ?case by simp
next
  case (Cons fr rest)
  obtain f wv where fr: "fr = (f, wv)" by (cases fr)
  obtain t cm' S' where lf:
    "label_frame labelled f (sort_key (\<lambda>(w, s). y0 s) wv) 0 (classmap c) (state_names c) = (t, cm', S')"
    by (metis prod_cases3)
  from label_frame_names [OF lf]
  have st: "state_names c \<subseteq> S'" "finite (state_names c) \<longrightarrow> finite S'"
    "whisker_name ` {0..<t} \<subseteq> S'"
    "S' \<subseteq> state_names c \<union> whisker_name ` {0..<t} \<union> junk_name ` {0..t}" by auto
  let ?c' = "\<lparr>nsteps = max (nsteps c) t, classmap = cm', state_names = S'\<rparr>"
  have w: "whisker_name ` {..<max (nsteps c) t} \<subseteq> S'"
  proof
    fix x assume "x \<in> whisker_name ` {..<max (nsteps c) t}"
    then obtain k where k: "x = whisker_name k" "k < max (nsteps c) t" by auto
    then have "k < nsteps c \<or> k < t" by auto
    then show "x \<in> S'" using k(1) st(1,3) Cons.prems unfolding names_inv_def by auto
  qed
  have u: "S' \<subseteq> whisker_name ` {..<max (nsteps c) t} \<union> junk_name ` {..max (nsteps c) t}"
  proof
    fix x assume "x \<in> S'"
    with st(4) have "x \<in> state_names c \<or> x \<in> whisker_name ` {0..<t} \<or> x \<in> junk_name ` {0..t}"
      by auto
    moreover have "x \<in> whisker_name ` {..<max (nsteps c) t} \<union> junk_name ` {..max (nsteps c) t}"
      if "x \<in> state_names c"
    proof -
      from that Cons.prems
      have "x \<in> whisker_name ` {..<nsteps c} \<or> x \<in> junk_name ` {..nsteps c}"
        unfolding names_inv_def by auto
      then show ?thesis
      proof
        assume "x \<in> whisker_name ` {..<nsteps c}"
        then obtain k where "x = whisker_name k" "k < max (nsteps c) t" by auto
        then show ?thesis by auto
      next
        assume "x \<in> junk_name ` {..nsteps c}"
        then obtain k where "x = junk_name k" "k \<le> max (nsteps c) t" by auto
        then show ?thesis by auto
      qed
    qed
    moreover have "x \<in> whisker_name ` {..<max (nsteps c) t} \<union> junk_name ` {..max (nsteps c) t}"
      if "x \<in> whisker_name ` {0..<t}"
    proof -
      from that obtain k where "x = whisker_name k" "k < max (nsteps c) t" by auto
      then show ?thesis by auto
    qed
    moreover have "x \<in> whisker_name ` {..<max (nsteps c) t} \<union> junk_name ` {..max (nsteps c) t}"
      if "x \<in> junk_name ` {0..t}"
    proof -
      from that obtain k where "x = junk_name k" "k \<le> max (nsteps c) t" by auto
      then show ?thesis by auto
    qed
    ultimately show "x \<in> whisker_name ` {..<max (nsteps c) t} \<union> junk_name ` {..max (nsteps c) t}"
      by blast
  qed
  have "names_inv ?c'"
    using w u st(2) Cons.prems unfolding names_inv_def by simp
  from Cons.IH [OF this] show ?case using fr lf by simp
qed

lemma names_inv_card:
  assumes "names_inv c"
  shows "nsteps c \<le> card (state_names c) \<and> card (state_names c) \<le> 2 * nsteps c + 1"
proof -
  from assms have f: "finite (state_names c)"
    and lo: "whisker_name ` {..<nsteps c} \<subseteq> state_names c"
    and hi: "state_names c \<subseteq> whisker_name ` {..<nsteps c} \<union> junk_name ` {..nsteps c}"
    unfolding names_inv_def by auto
  have "card (whisker_name ` {..<nsteps c}) = nsteps c"
    by (simp add: card_image inj_whisker_name [THEN inj_on_subset])
  with card_mono [OF f lo] have 1: "nsteps c \<le> card (state_names c)" by simp
  have "card (state_names c) \<le> card (whisker_name ` {..<nsteps c} \<union> junk_name ` {..nsteps c})"
    by (rule card_mono [OF _ hi]) simp
  also have "\<dots> \<le> card (whisker_name ` {..<nsteps c}) + card (junk_name ` {..nsteps c})"
    by (rule card_Un_le)
  also have "\<dots> \<le> nsteps c + (nsteps c + 1)"
    by (rule add_mono) (use card_image_le [of "{..<nsteps c}" whisker_name]
        card_image_le [of "{..nsteps c}" junk_name] in simp_all)
  finally show ?thesis using 1 by simp
qed

text \<open>
  C7 (as amended).  The set of state names that the ordinal classifier discovers holds
  \<^verbatim>\<open>whisker<t>\<close> for every \<open>t < nsteps\<close>, and nothing but these and names
  \<^verbatim>\<open>junk<t>\<close> with \<open>t \<le> nsteps\<close> (a junk name exists only for a counter
  value at which a segment outside every trajectory was seen). Its size lies between
  \<open>nsteps\<close> and \<open>2 * nsteps + 1\<close>.
\<close>
theorem ordinal_state_names:
  "whisker_name ` {..<nsteps (EDMultiState_make_classifer y0 wvd tr)}
      \<subseteq> state_names (EDMultiState_make_classifer y0 wvd tr) \<and>
   state_names (EDMultiState_make_classifer y0 wvd tr)
      \<subseteq> whisker_name ` {..<nsteps (EDMultiState_make_classifer y0 wvd tr)}
        \<union> junk_name ` {..nsteps (EDMultiState_make_classifer y0 wvd tr)} \<and>
   nsteps (EDMultiState_make_classifer y0 wvd tr)
      \<le> card (state_names (EDMultiState_make_classifer y0 wvd tr)) \<and>
   card (state_names (EDMultiState_make_classifer y0 wvd tr))
      \<le> 2 * nsteps (EDMultiState_make_classifer y0 wvd tr) + 1"
proof -
  have "names_inv \<lparr>nsteps = 0, classmap = Map.empty, state_names = {}\<rparr>"
    by (simp add: names_inv_def)
  then have inv: "names_inv (EDMultiState_make_classifer y0 wvd tr)"
    unfolding EDMultiState_make_classifer_def by (rule label_frames_inv)
  then show ?thesis using names_inv_card [OF inv] unfolding names_inv_def by blast
qed

text \<open>
  C7 as stated fails: one frame whose only segment belongs to a trajectory gives the name
  set \<open>{whisker0}\<close> and \<open>nsteps = 1\<close>, one name and not two.
\<close>
theorem ordinal_state_names_counterexample:
  "card (state_names (EDMultiState_make_classifer (\<lambda>x. x) [(0, [(7, 1::real)])] [(0, [(0, 7)])]))
     \<noteq> 2 * nsteps (EDMultiState_make_classifer (\<lambda>x. x) [(0, [(7, 1::real)])] [(0, [(0, 7)])])"
  by (simp add: EDMultiState_make_classifer_def itertraj_def)

text \<open>
  A frame with a junk segment before a trajectory member: \<open>nsteps = 1\<close> and the two
  names \<open>junk0\<close>, \<open>whisker0\<close>.
\<close>
theorem ordinal_state_names_witness:
  "nsteps (EDMultiState_make_classifer (\<lambda>x. x) [(0, [(7, 1::real), (8, 0)])] [(0, [(0, 7)])]) = 1 \<and>
   state_names (EDMultiState_make_classifer (\<lambda>x. x) [(0, [(7, 1::real), (8, 0)])] [(0, [(0, 7)])])
     = {''junk0'', ''whisker0''} \<and>
   card (state_names (EDMultiState_make_classifer (\<lambda>x. x) [(0, [(7, 1::real), (8, 0)])] [(0, [(0, 7)])]))
     \<le> 3"
  using ordinal_state_names [of "\<lambda>x. x" "[(0, [(7, 1::real), (8, 0)])]" "[(0, [(0, 7)])]"]
  by (auto simp: EDMultiState_make_classifer_def itertraj_def whisker_name_def junk_name_def
      digit_char_def)

subsection \<open>linspace and histogram\<close>

lemma length_linspace: "length (linspace a b n) = n"
  by (simp add: linspace_def Let_def)

lemma linspace_nth:
  assumes "2 \<le> n" "j < n"
  shows "linspace a b n ! j = a + real j * ((b - a) / real (n - 1))"
proof (cases "j = n - 1")
  case True
  with assms have "linspace a b n ! j = b"
    by (simp add: linspace_def Let_def)
  moreover from assms True have "real j * ((b - a) / real (n - 1)) = b - a"
    by simp
  ultimately show ?thesis by simp
next
  case False
  with assms show ?thesis
    by (simp add: linspace_def Let_def)
qed

lemma length_histogram: "length (histogram a es) = length es - 1"
  by (induction a es rule: histogram.induct) simp_all

lemma histogram_nth:
  "Suc i < length es \<Longrightarrow>
   histogram a es ! i =
     length (filter (\<lambda>x. es ! i \<le> x \<and> (if Suc (Suc i) = length es then x \<le> es ! Suc i else x < es ! Suc i)) a)"
proof (induction a es arbitrary: i rule: histogram.induct)
  case (4 a lo hi e es)
  show ?case
  proof (cases i)
    case 0
    then show ?thesis by simp
  next
    case (Suc i')
    with "4.prems" have "Suc i' < length (hi # e # es)" by simp
    from "4.IH" [OF this] show ?thesis using Suc by simp
  qed
qed simp_all

lemma bin_probs_props:
  assumes "2 \<le> length b"
  shows "length (bin_probs data v b k) = length b - 1"
    and "\<forall>p \<in> set (bin_probs data v b k). 0 < p"
    and "sum_list (bin_probs data v b k) = 1"
proof -
  define counts where
    "counts = map (\<lambda>c. real c + 1) (histogram (masked v (map (\<lambda>r. cls r = int k) data)) b)"
  have bp: "bin_probs data v b k = map (\<lambda>c. c / sum_list counts) counts"
    by (simp add: bin_probs_def counts_def Let_def)
  have len: "length counts = length b - 1"
    by (simp add: counts_def length_histogram)
  have pos: "\<forall>c \<in> set counts. 0 < c"
    by (auto simp: counts_def intro: add_nonneg_pos)
  from len assms have ne: "counts \<noteq> []" by auto
  have tot: "0 < sum_list counts"
    using ne pos by (induction counts) (auto intro: add_pos_nonneg sum_list_nonneg less_imp_le)
  show "length (bin_probs data v b k) = length b - 1" by (simp add: bp len)
  show "\<forall>p \<in> set (bin_probs data v b k). 0 < p" using pos tot by (auto simp: bp)
  have "sum_list (map (\<lambda>c. c / t) counts) = sum_list counts / t" for t
    by (induction counts) (simp_all add: add_divide_distrib)
  then show "sum_list (bin_probs data v b k) = 1" using tot by (simp add: bp)
qed

subsection \<open>What estimate leaves in the object\<close>

lemma estimate_states_result:
  "estimate_states data v b k ss d = Inr d' \<Longrightarrow>
     d' s = (case d s of None \<Rightarrow> None | Some hs \<Rightarrow> Some (hs @ state_hists data v b k ss s))"
proof (induction ss arbitrary: k d)
  case Nil
  then show ?case by (simp split: option.splits)
next
  case (Cons x xs)
  from Cons.prems obtain hx where hx: "d x = Some hx"
    and rec: "estimate_states data v b (Suc k) xs (d(x \<mapsto> hx @ [log2_hist data v b k])) = Inr d'"
    by (auto split: option.splits)
  from Cons.IH [OF rec] show ?case using hx
    by (cases "x = s") (simp_all split: option.splits)
qed

lemma estimate_states_returns:
  "set ss \<subseteq> dom d \<Longrightarrow> \<exists>d'. estimate_states data v b k ss d = Inr d'"
proof (induction ss arbitrary: k d)
  case Nil
  then show ?case by simp
next
  case (Cons x xs)
  then obtain hx where hx: "d x = Some hx" by auto
  have "set xs \<subseteq> dom (d(x \<mapsto> hx @ [log2_hist data v b k]))" using Cons.prems by auto
  from Cons.IH [OF this, of "Suc k"] obtain d' where
    "estimate_states data v b (Suc k) xs (d(x \<mapsto> hx @ [log2_hist data v b k])) = Inr d'"
    by blast
  then show ?case using hx by simp
qed

lemma column_Inr: "column i data = Inr v \<Longrightarrow> v = col_vals i data"
  by (auto simp: column_def col_vals_def split: if_splits)

lemma estimate_features_result:
  "estimate_features data is st = Inr st' \<Longrightarrow>
     features st' = features st \<and> states st' = states st \<and> classifier st' = classifier st \<and>
     length (feature_bin_deltas st') = length (feature_bin_deltas st) \<and>
     length (feature_bin_mins st') = length (feature_bin_mins st) \<and>
     distributions st' s =
       (case distributions st s of None \<Rightarrow> None
        | Some hs \<Rightarrow> Some (hs @ feature_hists data is (states st) s))"
proof (induction "is" arbitrary: st)
  case Nil
  then show ?case by (simp split: option.splits)
next
  case (Cons i "is")
  let ?v = "col_vals i data"
  let ?b = "bin_edges i data"
  let ?st1 = "st\<lparr>feature_bin_deltas := (feature_bin_deltas st)[i := ?b ! 1 - ?b ! 0],
                  feature_bin_mins := (feature_bin_mins st)[i := ?b ! 0]\<rparr>"
  from Cons.prems obtain v where v: "column i data = Inr v"
    by (auto split: sum.splits)
  then have veq: "v = ?v" by (rule column_Inr)
  from Cons.prems v veq obtain d where
    d: "estimate_states data ?v ?b 0 (states st) (distributions st) = Inr d"
    and rec: "estimate_features data is (?st1\<lparr>distributions := d\<rparr>) = Inr st'"
    by (auto simp: Let_def bin_edges_def split: sum.splits if_splits)
  from Cons.IH [OF rec] estimate_states_result [OF d, of s]
  show ?case by (simp split: option.splits)
qed

lemma estimate_features_untouched:
  "estimate_features data is st = Inr st' \<Longrightarrow> i \<notin> set is \<Longrightarrow>
     feature_bin_deltas st' ! i = feature_bin_deltas st ! i \<and>
     feature_bin_mins st' ! i = feature_bin_mins st ! i"
proof (induction "is" arbitrary: st)
  case Nil
  then show ?case by simp
next
  case (Cons j "is")
  let ?v = "col_vals j data"
  let ?b = "bin_edges j data"
  let ?st1 = "st\<lparr>feature_bin_deltas := (feature_bin_deltas st)[j := ?b ! 1 - ?b ! 0],
                  feature_bin_mins := (feature_bin_mins st)[j := ?b ! 0]\<rparr>"
  from Cons.prems obtain v where v: "column j data = Inr v"
    by (auto split: sum.splits)
  then have veq: "v = ?v" by (rule column_Inr)
  from Cons.prems v veq obtain d where
    rec: "estimate_features data is (?st1\<lparr>distributions := d\<rparr>) = Inr st'"
    by (auto simp: Let_def bin_edges_def split: sum.splits if_splits)
  from Cons.prems have "i \<notin> set is" "i \<noteq> j" by auto
  with Cons.IH [OF rec] show ?case by simp
qed

lemma estimate_features_bins:
  "estimate_features data is st = Inr st' \<Longrightarrow> i \<in> set is \<Longrightarrow>
   i < length (feature_bin_deltas st) \<Longrightarrow> i < length (feature_bin_mins st) \<Longrightarrow>
     feature_bin_deltas st' ! i = bin_edges i data ! 1 - bin_edges i data ! 0 \<and>
     feature_bin_mins st' ! i = bin_edges i data ! 0"
proof (induction "is" arbitrary: st)
  case Nil
  then show ?case by simp
next
  case (Cons j "is")
  let ?v = "col_vals j data"
  let ?b = "bin_edges j data"
  let ?st1 = "st\<lparr>feature_bin_deltas := (feature_bin_deltas st)[j := ?b ! 1 - ?b ! 0],
                  feature_bin_mins := (feature_bin_mins st)[j := ?b ! 0]\<rparr>"
  from Cons.prems obtain v where v: "column j data = Inr v"
    by (auto split: sum.splits)
  then have veq: "v = ?v" by (rule column_Inr)
  from Cons.prems v veq obtain d where
    rec: "estimate_features data is (?st1\<lparr>distributions := d\<rparr>) = Inr st'"
    by (auto simp: Let_def bin_edges_def split: sum.splits if_splits)
  show ?case
  proof (cases "i \<in> set is")
    case True
    from Cons.IH [OF rec True] Cons.prems(3,4) show ?thesis by simp
  next
    case False
    with Cons.prems have ij: "i = j" by simp
    from estimate_features_untouched [OF rec False] Cons.prems(3,4) ij
    show ?thesis by simp
  qed
qed

lemma estimate_features_nonempty:
  "estimate_features data is st = Inr st' \<Longrightarrow> is \<noteq> [] \<Longrightarrow> data \<noteq> []"
  by (cases "is") (auto simp: column_def split: sum.splits if_splits)

lemma estimate_features_returns:
  "data \<noteq> [] \<Longrightarrow> \<forall>r \<in> set data. \<forall>i \<in> set is. i < length (fvals r) \<Longrightarrow>
   set (states st) \<subseteq> dom (distributions st) \<Longrightarrow>
   \<exists>st'. estimate_features data is st = Inr st'"
proof (induction "is" arbitrary: st)
  case Nil
  then show ?case by simp
next
  case (Cons j "is")
  let ?v = "col_vals j data"
  let ?b = "bin_edges j data"
  let ?st1 = "st\<lparr>feature_bin_deltas := (feature_bin_deltas st)[j := ?b ! 1 - ?b ! 0],
                  feature_bin_mins := (feature_bin_mins st)[j := ?b ! 0]\<rparr>"
  have col: "column j data = Inr ?v"
    using Cons.prems(2) by (auto simp: column_def col_vals_def list_all_iff)
  have ne: "?v \<noteq> []" using Cons.prems(1) by (simp add: col_vals_def)
  from estimate_states_returns [OF Cons.prems(3)] obtain d where
    d: "estimate_states data ?v ?b 0 (states st) (distributions st) = Inr d" by blast
  have "dom d = dom (distributions st)"
    using estimate_states_result [OF d] by (auto simp: dom_def split: option.splits)
  then have "set (states (?st1\<lparr>distributions := d\<rparr>)) \<subseteq> dom (distributions (?st1\<lparr>distributions := d\<rparr>))"
    using Cons.prems(3) by simp
  from Cons.IH [OF Cons.prems(1) _ this] Cons.prems(2)
  obtain st' where "estimate_features data is (?st1\<lparr>distributions := d\<rparr>) = Inr st'" by auto
  then show ?case using col ne d by (simp add: Let_def bin_edges_def)
qed

lemma init_distributions:
  "distributions (EmmissionDistributions_init feats sts clf) s =
     (if s \<in> set sts then Some [] else None)"
  by (induction sts) (simp_all add: EmmissionDistributions_init_def)

lemma init_fields:
  "features (EmmissionDistributions_init feats sts clf) = feats"
  "states (EmmissionDistributions_init feats sts clf) = sts"
  "classifier (EmmissionDistributions_init feats sts clf) = clf"
  "length (feature_bin_deltas (EmmissionDistributions_init feats sts clf)) = length feats"
  "length (feature_bin_mins (EmmissionDistributions_init feats sts clf)) = length feats"
  by (simp_all add: EmmissionDistributions_init_def)

lemma estimate_fresh:
  assumes "estimate (EmmissionDistributions_init feats sts clf) wvd tr dopt = Inr st'"
    and "data = training_rows (EmmissionDistributions_init feats sts clf) wvd tr dopt"
  shows "features st' = feats" and "states st' = sts"
    and "length (feature_bin_deltas st') = length feats"
    and "length (feature_bin_mins st') = length feats"
    and "distributions st' s =
           (if s \<in> set sts then Some (feature_hists data [0..<length feats] sts s) else None)"
    and "i < length feats \<Longrightarrow>
           feature_bin_deltas st' ! i = bin_edges i data ! 1 - bin_edges i data ! 0 \<and>
           feature_bin_mins st' ! i = bin_edges i data ! 0"
proof -
  let ?st = "EmmissionDistributions_init feats sts clf"
  from assms have ef: "estimate_features data [0..<length feats] ?st = Inr st'"
    by (simp add: estimate_def init_fields)
  from estimate_features_result [OF ef, of s]
  show "features st' = feats" "states st' = sts"
    "length (feature_bin_deltas st') = length feats"
    "length (feature_bin_mins st') = length feats"
    "distributions st' s =
           (if s \<in> set sts then Some (feature_hists data [0..<length feats] sts s) else None)"
    by (simp_all add: init_fields init_distributions)
  show "feature_bin_deltas st' ! i = bin_edges i data ! 1 - bin_edges i data ! 0 \<and>
           feature_bin_mins st' ! i = bin_edges i data ! 0" if "i < length feats"
    using estimate_features_bins [OF ef, of i] that by (simp add: init_fields)
qed

lemma estimate_fresh_returns:
  assumes "data = training_rows (EmmissionDistributions_init feats sts clf) wvd tr dopt"
    and "data \<noteq> []" and "\<forall>r \<in> set data. length feats \<le> length (fvals r)"
  shows "\<exists>st'. estimate (EmmissionDistributions_init feats sts clf) wvd tr dopt = Inr st'"
proof -
  let ?st = "EmmissionDistributions_init feats sts clf"
  have "set (states ?st) \<subseteq> dom (distributions ?st)"
    by (auto simp: init_fields init_distributions dom_def)
  moreover have "\<forall>r \<in> set data. \<forall>i \<in> set [0..<length feats]. i < length (fvals r)"
    using assms(3) by auto
  ultimately show ?thesis
    using estimate_features_returns [OF assms(2), of "[0..<length feats]" ?st] assms(1)
    by (simp add: estimate_def init_fields)
qed

lemma bin_edges_nth:
  "j < 64 \<Longrightarrow> bin_edges i data ! j =
     Min (set (col_vals i data)) +
       real j * ((Max (set (col_vals i data)) - Min (set (col_vals i data))) / 63)"
  by (simp add: bin_edges_def linspace_nth)

lemma length_bin_edges: "length (bin_edges i data) = 64"
  by (simp add: bin_edges_def length_linspace)

lemma state_hists_elem:
  "h \<in> set (state_hists data v b k ss s) \<Longrightarrow> \<exists>k'. h = log2_hist data v b k'"
  by (induction ss arbitrary: k) (auto split: if_splits)

lemma feature_hists_elem:
  "h \<in> set (feature_hists data is sts s) \<Longrightarrow>
     \<exists>i k. h = log2_hist data (col_vals i data) (bin_edges i data) k"
  by (induction "is") (auto dest!: state_hists_elem)

lemma state_hists_notin: "s \<notin> set ss \<Longrightarrow> state_hists data v b k ss s = []"
  by (induction ss arbitrary: k) auto

lemma state_hists_distinct:
  "distinct ss \<Longrightarrow> j < length ss \<Longrightarrow>
     state_hists data v b k ss (ss ! j) = [log2_hist data v b (k + j)]"
proof (induction ss arbitrary: k j)
  case Nil
  then show ?case by simp
next
  case (Cons x xs)
  show ?case
  proof (cases j)
    case 0
    with Cons.prems show ?thesis by (simp add: state_hists_notin)
  next
    case (Suc j')
    with Cons.prems have "xs ! j' \<noteq> x" by auto
    with Cons.IH [of j' "Suc k"] Cons.prems Suc show ?thesis by simp
  qed
qed

lemma feature_hists_distinct:
  "distinct sts \<Longrightarrow> k < length sts \<Longrightarrow>
     feature_hists data is sts (sts ! k) =
       map (\<lambda>i. log2_hist data (col_vals i data) (bin_edges i data) k) is"
  by (induction "is") (simp_all add: state_hists_distinct)

lemma sorted_linspace:
  assumes "a \<le> b" "2 \<le> n"
  shows "sorted (linspace a b n)"
proof -
  have "linspace a b n ! i \<le> linspace a b n ! j" if "i \<le> j" "j < n" for i j
  proof -
    have "real i * ((b - a) / real (n - 1)) \<le> real j * ((b - a) / real (n - 1))"
      using that assms by (intro mult_right_mono) auto
    then show ?thesis using that assms by (simp add: linspace_nth)
  qed
  then show ?thesis by (simp add: sorted_iff_nth_mono length_linspace)
qed

lemma sum_histogram:
  "sorted es \<Longrightarrow> 2 \<le> length es \<Longrightarrow>
     sum_list (histogram a es) = length (filter (\<lambda>x. hd es \<le> x \<and> x \<le> last es) a)"
proof (induction a es rule: histogram.induct)
  case (4 a lo hi e es)
  have s: "sorted (hi # e # es)" and lh: "lo \<le> hi" and hl: "hi \<le> last (hi # e # es)"
    using "4.prems" by auto
  have "sum_list (histogram a (hi # e # es)) =
          length (filter (\<lambda>x. hi \<le> x \<and> x \<le> last (hi # e # es)) a)"
    using "4.IH" [OF s] by simp
  moreover have "length (filter (\<lambda>x. lo \<le> x \<and> x < hi) a) +
      length (filter (\<lambda>x. hi \<le> x \<and> x \<le> last (hi # e # es)) a) =
      length (filter (\<lambda>x. lo \<le> x \<and> x \<le> last (hi # e # es)) a)"
    using lh hl by (induction a) auto
  ultimately show ?case by simp
qed simp_all

lemma masked_col_vals:
  "masked (col_vals i data) (map (\<lambda>r. cls r = c) data) =
     col_vals i (filter (\<lambda>r. cls r = c) data)"
  by (induction data) (simp_all add: masked_def col_vals_def)

lemma bin_edges_sorted: "data \<noteq> [] \<Longrightarrow> sorted (bin_edges i data)"
  unfolding bin_edges_def by (rule sorted_linspace) (simp_all add: col_vals_def)

lemma bin_edges_hd_last:
  "hd (bin_edges i data) = Min (set (col_vals i data))"
  "last (bin_edges i data) = Max (set (col_vals i data))"
proof -
  have "hd (bin_edges i data) = bin_edges i data ! 0"
    by (rule hd_conv_nth) (use length_bin_edges [of i data] in auto)
  then show "hd (bin_edges i data) = Min (set (col_vals i data))"
    by (simp add: bin_edges_nth)
  have "last (bin_edges i data) = bin_edges i data ! 63"
  proof -
    have "bin_edges i data \<noteq> []" using length_bin_edges [of i data] by auto
    from last_conv_nth [OF this] show ?thesis by (simp add: length_bin_edges)
  qed
  then show "last (bin_edges i data) = Max (set (col_vals i data))"
    by (simp add: bin_edges_nth diff_divide_distrib)
qed

lemma bin_probs_nth:
  assumes "j < 63"
  shows "bin_probs data (col_vals i data) (bin_edges i data) k ! j =
     (real (histogram (col_vals i (filter (\<lambda>r. cls r = int k) data)) (bin_edges i data) ! j) + 1) /
     (real (length (filter (\<lambda>r. cls r = int k) data)) + 63)"
proof -
  let ?a = "col_vals i (filter (\<lambda>r. cls r = int k) data)"
  let ?h = "histogram ?a (bin_edges i data)"
  have len: "length ?h = 63" by (simp add: length_histogram length_bin_edges)
  have tot: "sum_list (map (\<lambda>c. real c + 1) ?h) = real (sum_list ?h) + 63"
  proof -
    have "sum_list (map (\<lambda>c. real c + 1) xs) = real (sum_list xs) + real (length xs)" for xs :: "nat list"
      by (induction xs) simp_all
    then show ?thesis using len by simp
  qed
  have "sum_list ?h = length ?a"
  proof (cases "data = []")
    case True
    then have "?a = []" by (simp add: col_vals_def)
    moreover have "sum_list (histogram [] es) = 0" for es :: "real list"
      by (induction "[] :: real list" es rule: histogram.induct) simp_all
    ultimately show ?thesis by simp
  next
    case False
    have "sum_list ?h = length (filter (\<lambda>x. Min (set (col_vals i data)) \<le> x \<and> x \<le> Max (set (col_vals i data))) ?a)"
      using sum_histogram [OF bin_edges_sorted [OF False], of i ?a]
      by (simp add: length_bin_edges bin_edges_hd_last)
    moreover have "\<forall>x \<in> set ?a. Min (set (col_vals i data)) \<le> x \<and> x \<le> Max (set (col_vals i data))"
      by (auto simp: col_vals_def)
    ultimately show ?thesis by simp
  qed
  then have "sum_list (map (\<lambda>c. real c + 1) ?h) =
               real (length (filter (\<lambda>r. cls r = int k) data)) + 63"
    using tot by (simp add: col_vals_def)
  then show ?thesis using assms len
    by (simp add: bin_probs_def masked_col_vals Let_def)
qed

subsection \<open>evaluate on in-range indices\<close>

lemma discritize_eq:
  assumes "length (feature_bin_deltas st) = length (features st)"
    and "length (feature_bin_mins st) = length (features st)"
  shows "discritize st (feature st seg) =
     map (\<lambda>i. if feature_bin_deltas st ! i = 0 then None else Some (bin_index st seg i))
       [0..<length (features st)]"
  using assms
  by (intro nth_equalityI) (simp_all add: discritize_def feature_def bin_index_def)

lemma lookup_logp_in_range:
  assumes "d state = Some hs"
    and "\<forall>m < length js. i + m < length hs \<and>
           (\<exists>j. js ! m = Some j \<and> 0 \<le> j \<and> j < int (length (hs ! (i + m))))"
  shows "lookup_logp d state i js =
           Inr (map (\<lambda>m. hs ! (i + m) ! nat (the (js ! m))) [0..<length js])"
  using assms(2)
proof (induction js arbitrary: i)
  case Nil
  then show ?case by simp
next
  case (Cons j js)
  from Cons.prems [rule_format, of 0] obtain j' where
    j: "j = Some j'" "0 \<le> j'" "j' < int (length (hs ! i))" "i < length hs" by auto
  have "\<forall>m < length js. Suc i + m < length hs \<and>
           (\<exists>j. js ! m = Some j \<and> 0 \<le> j \<and> j < int (length (hs ! (Suc i + m))))"
  proof (intro allI impI)
    fix m assume "m < length js"
    with Cons.prems [rule_format, of "Suc m"]
    show "Suc i + m < length hs \<and>
           (\<exists>j. js ! m = Some j \<and> 0 \<le> j \<and> j < int (length (hs ! (Suc i + m))))" by simp
  qed
  from Cons.IH [OF this]
  have rec: "lookup_logp d state (Suc i) js =
           Inr (map (\<lambda>m. hs ! (Suc i + m) ! nat (the (js ! m))) [0..<length js])" .
  have "map (\<lambda>m. hs ! (i + m) ! nat (the ((j # js) ! m))) [0..<length (j # js)] =
        hs ! i ! nat j' # map (\<lambda>m. hs ! (Suc i + m) ! nat (the (js ! m))) [0..<length js]"
  proof -
    have "[0..<length (j # js)] = 0 # map Suc [0..<length js]"
      by (simp add: upt_conv_Cons map_Suc_upt del: upt_Suc)
    then show ?thesis using j(1) by (simp del: upt_Suc)
  qed
  then show ?case using assms(1) j rec by (simp add: py_index_def)
qed

subsection \<open>The example estimator\<close>

lemma ex_training_rows:
  "training_rows ex_estimator [] [] (Some ex_rows) =
     [\<lparr>cls = 0, row_fid = 0, row_wid = 0, fvals = [0]\<rparr>,
      \<lparr>cls = 0, row_fid = 0, row_wid = 1, fvals = [63]\<rparr>]"
  by (simp add: training_rows_def reclassify_def ex_estimator_def EmmissionDistributions_init_def
      ex_classifier_def ex_rows_def)

lemma ex_training_rows_unlabelled:
  "training_rows ex_estimator [] [] (Some ex_rows_unlabelled) =
     [\<lparr>cls = 0, row_fid = 0, row_wid = 0, fvals = [0]\<rparr>,
      \<lparr>cls = 0, row_fid = 0, row_wid = 1, fvals = [1]\<rparr>,
      \<lparr>cls = - 1, row_fid = 1, row_wid = 0, fvals = [126]\<rparr>]"
  by (simp add: training_rows_def reclassify_def ex_estimator_def EmmissionDistributions_init_def
      ex_classifier_def ex_rows_unlabelled_def)

lemma ex_estimate_returns: "\<exists>st'. estimate ex_estimator [] [] (Some ex_rows) = Inr st'"
  unfolding ex_estimator_def
  by (rule estimate_fresh_returns [OF refl])
     (simp_all add: ex_training_rows [unfolded ex_estimator_def])

lemma ex_estimate_unlabelled_returns:
  "\<exists>st'. estimate ex_estimator [] [] (Some ex_rows_unlabelled) = Inr st'"
  unfolding ex_estimator_def
  by (rule estimate_fresh_returns [OF refl])
     (simp_all add: ex_training_rows_unlabelled [unfolded ex_estimator_def])

lemma log2_hist_nth:
  assumes "j < 63"
    and "mn = Min (set (col_vals i data))" and "mx = Max (set (col_vals i data))"
    and "w = (mx - mn) / 63"
  shows "log2_hist data (col_vals i data) (bin_edges i data) k ! j =
     log 2 ((real (length (filter (\<lambda>x. mn + real j * w \<le> x \<and>
                      (if j = 62 then x \<le> mx else x < mn + real (j + 1) * w))
                (col_vals i (filter (\<lambda>r. cls r = int k) data)))) + 1) /
            (real (length (filter (\<lambda>r. cls r = int k) data)) + 63))"
proof -
  let ?a = "col_vals i (filter (\<lambda>r. cls r = int k) data)"
  have e: "bin_edges i data ! j = mn + real j * w" "bin_edges i data ! Suc j = mn + real (j + 1) * w"
    using assms by (simp_all add: bin_edges_nth)
  have last: "mn + real (j + 1) * w = mx" if "j = 62"
    using that assms(4) by simp
  from assms(1) have "Suc j < length (bin_edges i data)" by (simp add: length_bin_edges)
  from histogram_nth [OF this, of ?a]
  have "histogram ?a (bin_edges i data) ! j =
          length (filter (\<lambda>x. mn + real j * w \<le> x \<and>
                      (if j = 62 then x \<le> mx else x < mn + real (j + 1) * w)) ?a)"
    using e last by (auto simp: length_bin_edges intro!: arg_cong [where f = length] filter_cong)
  moreover have "j < length (bin_probs data (col_vals i data) (bin_edges i data) k)"
    using assms(1) by (simp add: bin_probs_props(1) length_bin_edges)
  ultimately show ?thesis
    using bin_probs_nth [OF assms(1), of data i k] by (simp add: log2_hist_def)
qed

lemma estimate_result:
  assumes "estimate st wvd tr dopt = Inr st'" and "data = training_rows st wvd tr dopt"
  shows "features st' = features st" and "states st' = states st"
    and "classifier st' = classifier st"
    and "length (feature_bin_deltas st') = length (feature_bin_deltas st)"
    and "length (feature_bin_mins st') = length (feature_bin_mins st)"
    and "distributions st' s =
           (case distributions st s of None \<Rightarrow> None
            | Some hs \<Rightarrow> Some (hs @ feature_hists data [0..<length (features st)] (states st) s))"
    and "i < length (features st) \<Longrightarrow> i < length (feature_bin_deltas st) \<Longrightarrow>
         i < length (feature_bin_mins st) \<Longrightarrow>
           feature_bin_deltas st' ! i = bin_edges i data ! 1 - bin_edges i data ! 0 \<and>
           feature_bin_mins st' ! i = bin_edges i data ! 0"
proof -
  from assms have ef: "estimate_features data [0..<length (features st)] st = Inr st'"
    by (simp add: estimate_def)
  from estimate_features_result [OF ef, of s]
  show "features st' = features st" "states st' = states st" "classifier st' = classifier st"
    "length (feature_bin_deltas st') = length (feature_bin_deltas st)"
    "length (feature_bin_mins st') = length (feature_bin_mins st)"
    "distributions st' s =
           (case distributions st s of None \<Rightarrow> None
            | Some hs \<Rightarrow> Some (hs @ feature_hists data [0..<length (features st)] (states st) s))"
    by simp_all
  show "feature_bin_deltas st' ! i = bin_edges i data ! 1 - bin_edges i data ! 0 \<and>
           feature_bin_mins st' ! i = bin_edges i data ! 0"
    if "i < length (features st)" "i < length (feature_bin_deltas st)" "i < length (feature_bin_mins st)"
    using estimate_features_bins [OF ef, of i] that by simp
qed

lemma log2_neq: "0 < x \<Longrightarrow> 0 < y \<Longrightarrow> x \<noteq> y \<Longrightarrow> log 2 x \<noteq> log 2 y"
proof
  assume "0 < x" "0 < y" "x \<noteq> y" and e: "log 2 x = log 2 y"
  then have "2 powr log 2 x = 2 powr log 2 y" by simp
  with \<open>0 < x\<close> \<open>0 < y\<close> have "x = y" by simp
  with \<open>x \<noteq> y\<close> show False by simp
qed

lemma singleton_list: "length xs = 1 \<Longrightarrow> xs ! 0 = x \<Longrightarrow> xs = [x]"
  by (cases xs) simp_all

lemma ex_fitted:
  "\<exists>st' h. estimate ex_estimator [] [] (Some ex_rows) = Inr st' \<and>
     features st' = [\<lambda>x. x] \<and> states st' = [''junk''] \<and> classifier st' = ex_classifier \<and>
     feature_bin_deltas st' = [1] \<and> feature_bin_mins st' = [0] \<and>
     distributions st' ''junk'' = Some [h] \<and> length h = 63 \<and>
     h ! 1 = log 2 (1 / 65) \<and> h ! 62 = log 2 (2 / 65)"
proof -
  from ex_estimate_returns obtain st' where
    st': "estimate ex_estimator [] [] (Some ex_rows) = Inr st'" by blast
  define data where "data = training_rows ex_estimator [] [] (Some ex_rows)"
  have data: "data = [\<lparr>cls = 0, row_fid = 0, row_wid = 0, fvals = [0]\<rparr>,
      \<lparr>cls = 0, row_fid = 0, row_wid = 1, fvals = [63]\<rparr>]"
    by (simp add: data_def ex_training_rows)
  have c: "col_vals 0 data = [0, 63]" by (simp add: data col_vals_def)
  note fr = estimate_result [OF st' data_def]
  have f: "features ex_estimator = [\<lambda>x. x]" "states ex_estimator = [''junk'']"
    "classifier ex_estimator = ex_classifier"
    "length (feature_bin_deltas ex_estimator) = 1" "length (feature_bin_mins ex_estimator) = 1"
    "distributions ex_estimator ''junk'' = Some []"
    by (simp_all add: ex_estimator_def EmmissionDistributions_init_def)
  let ?h = "log2_hist data (col_vals 0 data) (bin_edges 0 data) 0"
  have d: "distributions st' ''junk'' = Some [?h]"
    using fr(6) [of "''junk''"] by (simp add: f)
  have b: "feature_bin_deltas st' ! 0 = 1" "feature_bin_mins st' ! 0 = 0"
    using fr(7) [of 0] by (simp_all add: f bin_edges_nth c)
  have "feature_bin_deltas st' = [1]" "feature_bin_mins st' = [0]"
    using fr(4,5) b by (simp_all add: f singleton_list)
  moreover have "length ?h = 63"
    by (simp add: log2_hist_def bin_probs_props(1) length_bin_edges)
  moreover have mn: "(0::real) = Min (set (col_vals 0 data))"
    and mx: "(63::real) = Max (set (col_vals 0 data))" and w: "(1::real) = (63 - 0) / 63"
    by (simp_all add: c)
  have "?h ! 1 = log 2 (1 / 65)"
    by (subst log2_hist_nth [OF _ mn mx w]) (simp_all add: data col_vals_def)
  moreover have "?h ! 62 = log 2 (2 / 65)"
    by (subst log2_hist_nth [OF _ mn mx w]) (simp_all add: data col_vals_def)
  ultimately show ?thesis using st' fr(1,2,3) d by (simp add: f)
qed

lemma ex_training_rows_more:
  "training_rows ex_estimator [] [] (Some ex_rows_more) =
     [\<lparr>cls = 0, row_fid = 0, row_wid = 0, fvals = [0]\<rparr>,
      \<lparr>cls = 0, row_fid = 0, row_wid = 1, fvals = [0]\<rparr>,
      \<lparr>cls = 0, row_fid = 0, row_wid = 2, fvals = [63]\<rparr>]"
  by (simp add: training_rows_def reclassify_def ex_estimator_def EmmissionDistributions_init_def
      ex_classifier_def ex_rows_more_def)

lemma ex_fitted_more:
  "\<exists>st' h. estimate ex_estimator [] [] (Some ex_rows_more) = Inr st' \<and>
     features st' = [\<lambda>x. x] \<and> states st' = [''junk''] \<and> classifier st' = ex_classifier \<and>
     feature_bin_deltas st' = [1] \<and> feature_bin_mins st' = [0] \<and>
     distributions st' ''junk'' = Some [h] \<and> length h = 63 \<and>
     h = log2_hist (training_rows ex_estimator [] [] (Some ex_rows_more))
           (col_vals 0 (training_rows ex_estimator [] [] (Some ex_rows_more)))
           (bin_edges 0 (training_rows ex_estimator [] [] (Some ex_rows_more))) 0 \<and>
     h ! 0 = log 2 (3 / 66) \<and> h ! 1 = log 2 (1 / 66) \<and> h ! 62 = log 2 (2 / 66)"
proof -
  define data where "data = training_rows ex_estimator [] [] (Some ex_rows_more)"
  have data: "data = [\<lparr>cls = 0, row_fid = 0, row_wid = 0, fvals = [0]\<rparr>,
      \<lparr>cls = 0, row_fid = 0, row_wid = 1, fvals = [0]\<rparr>,
      \<lparr>cls = 0, row_fid = 0, row_wid = 2, fvals = [63]\<rparr>]"
    by (simp add: data_def ex_training_rows_more)
  have "\<exists>st'. estimate ex_estimator [] [] (Some ex_rows_more) = Inr st'"
    unfolding ex_estimator_def
    by (rule estimate_fresh_returns [OF refl])
       (simp_all add: ex_training_rows_more [unfolded ex_estimator_def])
  then obtain st' where st': "estimate ex_estimator [] [] (Some ex_rows_more) = Inr st'"
    by blast
  have c: "col_vals 0 data = [0, 0, 63]" by (simp add: data col_vals_def)
  note fr = estimate_result [OF st' data_def]
  have f: "features ex_estimator = [\<lambda>x. x]" "states ex_estimator = [''junk'']"
    "classifier ex_estimator = ex_classifier"
    "length (feature_bin_deltas ex_estimator) = 1" "length (feature_bin_mins ex_estimator) = 1"
    "distributions ex_estimator ''junk'' = Some []"
    by (simp_all add: ex_estimator_def EmmissionDistributions_init_def)
  let ?h = "log2_hist data (col_vals 0 data) (bin_edges 0 data) 0"
  have d: "distributions st' ''junk'' = Some [?h]"
    using fr(6) [of "''junk''"] by (simp add: f)
  have b: "feature_bin_deltas st' ! 0 = 1" "feature_bin_mins st' ! 0 = 0"
    using fr(7) [of 0] by (simp_all add: f bin_edges_nth c)
  have "feature_bin_deltas st' = [1]" "feature_bin_mins st' = [0]"
    using fr(4,5) b by (simp_all add: f singleton_list)
  moreover have "length ?h = 63"
    by (simp add: log2_hist_def bin_probs_props(1) length_bin_edges)
  moreover have mn: "(0::real) = Min (set (col_vals 0 data))"
    and mx: "(63::real) = Max (set (col_vals 0 data))" and w: "(1::real) = (63 - 0) / 63"
    by (simp_all add: c)
  have "?h ! 0 = log 2 (3 / 66)"
    by (subst log2_hist_nth [OF _ mn mx w]) (simp_all add: data col_vals_def)
  moreover have "?h ! 1 = log 2 (1 / 66)"
    by (subst log2_hist_nth [OF _ mn mx w]) (simp_all add: data col_vals_def)
  moreover have "?h ! 62 = log 2 (2 / 66)"
    by (subst log2_hist_nth [OF _ mn mx w]) (simp_all add: data col_vals_def)
  ultimately show ?thesis using st' fr(1,2,3) d by (simp add: f data_def)
qed

subsection \<open>evaluate\<close>

text \<open>
  C1 (as amended).  Take an estimator whose state has at least one stored histogram per
  feature and whose bin widths and minima are arrays of one entry per feature (every
  fitted estimator is such), and a segment every feature of which has a nonzero bin width
  and a bin index \<open>floor((value - min)/binWidth)\<close> inside its histogram. Then
  \<^verbatim>\<open>evaluate(segment, state)\<close> returns the sum, over the features, of the stored
  log2 probability at that bin index.
\<close>
theorem evaluate_in_range:
  assumes "distributions st state = Some hs"
    and "length (features st) \<le> length hs"
    and "length (feature_bin_deltas st) = length (features st)"
    and "length (feature_bin_mins st) = length (features st)"
    and "\<forall>i < length (features st). feature_bin_deltas st ! i \<noteq> 0 \<and>
           0 \<le> bin_index st seg i \<and> bin_index st seg i < int (length (hs ! i))"
  shows "evaluate st seg state =
           Inr (\<Sum>i\<leftarrow>[0..<length (features st)]. hs ! i ! nat (bin_index st seg i))"
proof -
  let ?n = "length (features st)"
  let ?js = "map (\<lambda>i. if feature_bin_deltas st ! i = 0 then None else Some (bin_index st seg i)) [0..<?n]"
  have js: "discritize st (feature st seg) = ?js"
    by (rule discritize_eq [OF assms(3,4)])
  have "\<forall>m < length ?js. 0 + m < length hs \<and>
           (\<exists>j. ?js ! m = Some j \<and> 0 \<le> j \<and> j < int (length (hs ! (0 + m))))"
    using assms(2,5) by auto
  from lookup_logp_in_range [of "distributions st" state hs ?js 0, OF assms(1) this]
  have "lookup_logp (distributions st) state 0 ?js =
          Inr (map (\<lambda>m. hs ! m ! nat (the (?js ! m))) [0..<?n])" by simp
  moreover have "map (\<lambda>m. hs ! m ! nat (the (?js ! m))) [0..<?n] =
      map (\<lambda>i. hs ! i ! nat (bin_index st seg i)) [0..<?n]"
    using assms(5) by (intro map_cong) auto
  ultimately show ?thesis by (simp add: evaluate_def js)
qed

text \<open>
  The fitted example: the value 1 falls into bin 1 of the 63 bins.
\<close>
theorem evaluate_in_range_witness:
  "\<exists>st' h. estimate ex_estimator [] [] (Some ex_rows) = Inr st' \<and>
     distributions st' ''junk'' = Some [h] \<and> bin_index st' 1 0 = 1 \<and>
     evaluate st' 1 ''junk'' = Inr (h ! 1)"
proof -
  from ex_fitted obtain st' h where st': "estimate ex_estimator [] [] (Some ex_rows) = Inr st'"
    and f: "features st' = [\<lambda>x. x]" "feature_bin_deltas st' = [1]" "feature_bin_mins st' = [0]"
    and d: "distributions st' ''junk'' = Some [h]" and l: "length h = 63"
    by blast
  have b: "bin_index st' 1 0 = 1" by (simp add: bin_index_def f)
  have "evaluate st' 1 ''junk'' =
          Inr (\<Sum>i\<leftarrow>[0..<length (features st')]. [h] ! i ! nat (bin_index st' 1 i))"
    by (rule evaluate_in_range [OF d]) (simp_all add: f b l)
  then have "evaluate st' 1 ''junk'' = Inr (h ! 1)" by (simp add: f b)
  with st' d b show ?thesis by blast
qed

text \<open>
  C1 as stated fails: on the estimator fitted on the values 0 and 63 (bins of width 1
  from 0), a segment of value 100 has bin index 100, and \<^verbatim>\<open>evaluate\<close> raises
  IndexError instead of returning a sum.
\<close>
theorem evaluate_in_range_counterexample:
  "map_sum id (\<lambda>st'. evaluate st' 100 ''junk'') (estimate ex_estimator [] [] (Some ex_rows))
     = Inr (Inl IndexError)"
proof -
  from ex_fitted obtain st' h where st': "estimate ex_estimator [] [] (Some ex_rows) = Inr st'"
    and f: "features st' = [\<lambda>x. x]" "feature_bin_deltas st' = [1]" "feature_bin_mins st' = [0]"
    and d: "distributions st' ''junk'' = Some [h]" and l: "length h = 63"
    by blast
  have "evaluate st' 100 ''junk'' = Inl IndexError"
    by (simp add: evaluate_def discritize_def feature_def f d l py_index_def)
  with st' show ?thesis by simp
qed

subsection \<open>The bins of estimate\<close>

text \<open>
  C2 (as amended).  After \<^verbatim>\<open>estimate\<close> on a new estimator, for every feature
  \<open>i\<close> with extrema \<open>mn\<close> and \<open>mx\<close> over all rows of the table: the stored bin
  width is \<open>(mx - mn)/63\<close>, the stored minimum is \<open>mn\<close>, there are 64 edges
  \<open>mn + j * width\<close> and hence 63 bins, every stored histogram has 63 entries, and
  (the state names being distinct) entry \<open>j\<close> of the histogram of feature \<open>i\<close>
  and state \<open>k\<close> is the log2 of the smoothed share of the rows of class \<open>k\<close>
  whose value lies in \<open>[mn + j * width, mn + (j+1) * width)\<close>, the last bin
  (\<open>j = 62\<close>) being closed at \<open>mx\<close>.
\<close>
theorem estimate_bins:
  assumes "estimate (EmmissionDistributions_init feats sts clf) wvd tr dopt = Inr st'"
    and "data = training_rows (EmmissionDistributions_init feats sts clf) wvd tr dopt"
    and "i < length feats"
    and "mn = Min (set (col_vals i data))" and "mx = Max (set (col_vals i data))"
    and "w = (mx - mn) / 63"
  shows "feature_bin_deltas st' ! i = w \<and> feature_bin_mins st' ! i = mn \<and>
         length (bin_edges i data) = 64 \<and>
         (\<forall>j < 64. bin_edges i data ! j = mn + real j * w) \<and>
         (\<forall>s hs h. distributions st' s = Some hs \<longrightarrow> h \<in> set hs \<longrightarrow> length h = 63) \<and>
         (distinct sts \<longrightarrow>
            (\<forall>k < length sts. \<forall>j < 63.
               the (distributions st' (sts ! k)) ! i ! j =
                 log 2 ((real (length (filter (\<lambda>x. mn + real j * w \<le> x \<and>
                                  (if j = 62 then x \<le> mx else x < mn + real (j + 1) * w))
                            (col_vals i (filter (\<lambda>r. cls r = int k) data)))) + 1) /
                        (real (length (filter (\<lambda>r. cls r = int k) data)) + 63))))"
proof -
  from estimate_fresh(6) [OF assms(1,2,3)] assms(4,5,6)
  have "feature_bin_deltas st' ! i = w" "feature_bin_mins st' ! i = mn"
    by (simp_all add: bin_edges_nth)
  moreover have "\<forall>j < 64. bin_edges i data ! j = mn + real j * w"
    using assms(4,5,6) by (simp add: bin_edges_nth)
  moreover have "length h = 63" if "distributions st' s = Some hs" "h \<in> set hs" for s hs h
  proof -
    from that estimate_fresh(5) [OF assms(1,2), of s]
    have "h \<in> set (feature_hists data [0..<length feats] sts s)" by (auto split: if_splits)
    then obtain i' k where "h = log2_hist data (col_vals i' data) (bin_edges i' data) k"
      using feature_hists_elem by blast
    then show ?thesis
      by (simp add: log2_hist_def bin_probs_props(1) length_bin_edges)
  qed
  moreover have "the (distributions st' (sts ! k)) ! i ! j =
                 log 2 ((real (length (filter (\<lambda>x. mn + real j * w \<le> x \<and>
                                  (if j = 62 then x \<le> mx else x < mn + real (j + 1) * w))
                            (col_vals i (filter (\<lambda>r. cls r = int k) data)))) + 1) /
                        (real (length (filter (\<lambda>r. cls r = int k) data)) + 63))"
    if "distinct sts" "k < length sts" "j < 63" for k j
  proof -
    have "distributions st' (sts ! k) =
            Some (map (\<lambda>i. log2_hist data (col_vals i data) (bin_edges i data) k) [0..<length feats])"
      using estimate_fresh(5) [OF assms(1,2), of "sts ! k"] that(1,2)
      by (simp add: feature_hists_distinct)
    then have "the (distributions st' (sts ! k)) ! i =
                 log2_hist data (col_vals i data) (bin_edges i data) k"
      using assms(3) by simp
    then show ?thesis
      using log2_hist_nth [OF that(3) assms(4,5,6), of k] by simp
  qed
  ultimately show ?thesis
    by (simp add: length_bin_edges)
qed

text \<open>
  On the same table: width 1, minimum 0, last edge 63, and the last bin holds the value
  63 (probability 2/65).
\<close>
theorem estimate_bins_witness:
  "\<exists>st'. estimate ex_estimator [] [] (Some ex_rows) = Inr st' \<and>
     feature_bin_deltas st' ! 0 = 1 \<and> feature_bin_mins st' ! 0 = 0 \<and>
     bin_edges 0 (training_rows ex_estimator [] [] (Some ex_rows)) ! 63 = 63 \<and>
     the (distributions st' ''junk'') ! 0 ! 62 = log 2 (2 / 65)"
proof -
  from ex_estimate_returns obtain st' where
    st': "estimate ex_estimator [] [] (Some ex_rows) = Inr st'" by blast
  define data where "data = training_rows ex_estimator [] [] (Some ex_rows)"
  have c: "col_vals 0 data = [0, 63]"
    by (simp add: data_def ex_training_rows col_vals_def)
  have mn: "(0::real) = Min (set (col_vals 0 data))"
    and mx: "(63::real) = Max (set (col_vals 0 data))" and w: "(1::real) = (63 - 0) / 63"
    by (simp_all add: c)
  have i0: "0 < length [\<lambda>x::real. x]" by simp
  note t = estimate_bins [OF st' [unfolded ex_estimator_def] data_def [unfolded ex_estimator_def]
      i0 mn mx w]
  from t have a: "feature_bin_deltas st' ! 0 = 1" "feature_bin_mins st' ! 0 = 0" by simp_all
  from t have "\<forall>j < 64. bin_edges 0 data ! j = 0 + real j * 1" by simp
  then have e: "bin_edges 0 data ! 63 = 63" by simp
  from t have "distinct [''junk''] \<longrightarrow>
            (\<forall>k < length [''junk'']. \<forall>j < 63.
               the (distributions st' ([''junk''] ! k)) ! 0 ! j =
                 log 2 ((real (length (filter (\<lambda>x. 0 + real j * 1 \<le> x \<and>
                                  (if j = 62 then x \<le> 63 else x < 0 + real (j + 1) * 1))
                            (col_vals 0 (filter (\<lambda>r. cls r = int k) data)))) + 1) /
                        (real (length (filter (\<lambda>r. cls r = int k) data)) + 63)))"
    by simp
  then have "the (distributions st' ([''junk''] ! 0)) ! 0 ! 62 =
                 log 2 ((real (length (filter (\<lambda>x. 0 + real (62::nat) * 1 \<le> x \<and>
                                  (if (62::nat) = 62 then x \<le> 63 else x < 0 + real ((62::nat) + 1) * 1))
                            (col_vals 0 (filter (\<lambda>r. cls r = int 0) data)))) + 1) /
                        (real (length (filter (\<lambda>r. cls r = int 0) data)) + 63))"
    by simp
  then have "the (distributions st' ''junk'') ! 0 ! 62 = log 2 (2 / 65)"
    by (simp add: data_def ex_training_rows col_vals_def)
  with st' a e show ?thesis by (simp add: data_def)
qed

text \<open>
  C2 as stated fails: for the values 0 and 63 the stored width is 1, not
  \<open>(63 - 0)/64\<close>.
\<close>
theorem estimate_bins_counterexample:
  "map_sum id feature_bin_deltas (estimate ex_estimator [] [] (Some ex_rows)) = Inr [1] \<and>
   (Max (set (col_vals 0 (training_rows ex_estimator [] [] (Some ex_rows)))) -
    Min (set (col_vals 0 (training_rows ex_estimator [] [] (Some ex_rows))))) / 64 \<noteq> 1"
proof -
  from ex_estimate_returns obtain st' where
    st': "estimate ex_estimator [] [] (Some ex_rows) = Inr st'" by blast
  note fr = estimate_fresh [OF st' [unfolded ex_estimator_def] refl, folded ex_estimator_def]
  have "length (feature_bin_deltas st') = 1" using fr(3) by simp
  moreover have "feature_bin_deltas st' ! 0 = 1"
    using fr(6) [of 0] by (simp add: bin_edges_nth ex_training_rows col_vals_def)
  ultimately have "feature_bin_deltas st' = [1]"
    by (cases "feature_bin_deltas st'") simp_all
  then show ?thesis
    using st' by (simp add: ex_training_rows col_vals_def)
qed

subsection \<open>The rows behind the bin range\<close>

text \<open>
  C3 (as amended).  After \<^verbatim>\<open>estimate\<close> on a new estimator, the extrema that
  define the bin range of feature \<open>i\<close> are those of every row of the training
  table, the rows of class -1 included: the stored minimum \<open>mn\<close> is the least
  value of the whole column and \<open>mn\<close> plus 63 stored widths \<open>w\<close> is its
  greatest value. Only the stored histograms leave the rows of class -1 out: (the state
  names being distinct) the histogram stored for feature \<open>i\<close> and state \<open>k\<close>
  is the one of the rows with ground truth over the edges of the whole table, and its
  entry \<open>j\<close> is the log2 of the smoothed share, among the rows of class \<open>k\<close>
  with ground truth, of those whose value lies in bin \<open>j\<close> of that range.
\<close>
theorem estimate_extrema_over_all_rows:
  assumes "estimate (EmmissionDistributions_init feats sts clf) wvd tr dopt = Inr st'"
    and "data = training_rows (EmmissionDistributions_init feats sts clf) wvd tr dopt"
    and "i < length feats"
    and "labelled = filter (\<lambda>r. cls r \<noteq> - 1) data"
    and "mn = feature_bin_mins st' ! i" and "w = feature_bin_deltas st' ! i"
  shows "mn = Min (set (col_vals i data)) \<and>
         mn + 63 * w = Max (set (col_vals i data)) \<and>
         (distinct sts \<longrightarrow>
            (\<forall>k < length sts.
               the (distributions st' (sts ! k)) ! i =
                 log2_hist labelled (col_vals i labelled) (bin_edges i data) k \<and>
               (\<forall>j < 63.
                  the (distributions st' (sts ! k)) ! i ! j =
                    log 2 ((real (length (filter (\<lambda>x. mn + real j * w \<le> x \<and>
                                     (if j = 62 then x \<le> mn + 63 * w else x < mn + real (j + 1) * w))
                               (col_vals i (filter (\<lambda>r. cls r = int k) labelled)))) + 1) /
                           (real (length (filter (\<lambda>r. cls r = int k) labelled)) + 63)))))"
proof -
  let ?mn = "Min (set (col_vals i data))" and ?mx = "Max (set (col_vals i data))"
  from estimate_fresh(6) [OF assms(1,2,3)] assms(5,6)
  have mn: "mn = ?mn" and w: "w = (?mx - ?mn) / 63"
    by (simp_all add: bin_edges_nth)
  then have mx: "mn + 63 * w = ?mx" by simp
  have flt: "filter (\<lambda>r. cls r = int k) labelled = filter (\<lambda>r. cls r = int k) data" for k
    unfolding assms(4) by (induction data) auto
  have same: "log2_hist labelled (col_vals i labelled) b k = log2_hist data (col_vals i data) b k"
    for b k
    by (simp add: log2_hist_def bin_probs_def masked_col_vals flt)
  have "the (distributions st' (sts ! k)) ! i =
                 log2_hist labelled (col_vals i labelled) (bin_edges i data) k \<and>
               (\<forall>j < 63.
                  the (distributions st' (sts ! k)) ! i ! j =
                    log 2 ((real (length (filter (\<lambda>x. mn + real j * w \<le> x \<and>
                                     (if j = 62 then x \<le> mn + 63 * w else x < mn + real (j + 1) * w))
                               (col_vals i (filter (\<lambda>r. cls r = int k) labelled)))) + 1) /
                           (real (length (filter (\<lambda>r. cls r = int k) labelled)) + 63)))"
    if "distinct sts" "k < length sts" for k
  proof -
    have "distributions st' (sts ! k) =
            Some (map (\<lambda>i. log2_hist data (col_vals i data) (bin_edges i data) k) [0..<length feats])"
      using estimate_fresh(5) [OF assms(1,2), of "sts ! k"] that
      by (simp add: feature_hists_distinct)
    then have st: "the (distributions st' (sts ! k)) ! i =
                 log2_hist data (col_vals i data) (bin_edges i data) k"
      using assms(3) by simp
    have "log2_hist data (col_vals i data) (bin_edges i data) k ! j =
            log 2 ((real (length (filter (\<lambda>x. mn + real j * w \<le> x \<and>
                                     (if j = 62 then x \<le> mn + 63 * w else x < mn + real (j + 1) * w))
                               (col_vals i (filter (\<lambda>r. cls r = int k) labelled)))) + 1) /
                           (real (length (filter (\<lambda>r. cls r = int k) labelled)) + 63))"
      if "j < 63" for j
    proof -
      have "log2_hist data (col_vals i data) (bin_edges i data) k ! j =
            log 2 ((real (length (filter (\<lambda>x. mn + real j * w \<le> x \<and>
                                     (if j = 62 then x \<le> ?mx else x < mn + real (j + 1) * w))
                               (col_vals i (filter (\<lambda>r. cls r = int k) data)))) + 1) /
                           (real (length (filter (\<lambda>r. cls r = int k) data)) + 63))"
        by (rule log2_hist_nth) (simp_all add: that mn w)
      then show ?thesis by (simp add: flt mx)
    qed
    with st show ?thesis by (simp add: same)
  qed
  with mn mx show ?thesis by blast
qed

text \<open>
  A table with the values 0 and 1 in the labelled frame and 126 in an unlabelled one: the
  stored range is 0 to 126 in bins of width 2; the stored histogram counts the two
  labelled rows in bin 0 (probability 3/65) and nothing in the last bin, where 126 lies
  (probability 1/65).
\<close>
theorem estimate_extrema_over_all_rows_witness:
  "\<exists>st'. estimate ex_estimator [] [] (Some ex_rows_unlabelled) = Inr st' \<and>
     feature_bin_mins st' ! 0 = 0 \<and> feature_bin_deltas st' ! 0 = 2 \<and>
     feature_bin_mins st' ! 0 + 63 * feature_bin_deltas st' ! 0 = 126 \<and>
     filter (\<lambda>r. cls r \<noteq> - 1) (training_rows ex_estimator [] [] (Some ex_rows_unlabelled)) =
       [\<lparr>cls = 0, row_fid = 0, row_wid = 0, fvals = [0]\<rparr>,
        \<lparr>cls = 0, row_fid = 0, row_wid = 1, fvals = [1]\<rparr>] \<and>
     the (distributions st' ''junk'') ! 0 ! 0 = log 2 (3 / 65) \<and>
     the (distributions st' ''junk'') ! 0 ! 62 = log 2 (1 / 65)"
proof -
  from ex_estimate_unlabelled_returns obtain st' where
    st': "estimate ex_estimator [] [] (Some ex_rows_unlabelled) = Inr st'" by blast
  define data where "data = training_rows ex_estimator [] [] (Some ex_rows_unlabelled)"
  define labelled where "labelled = filter (\<lambda>r. cls r \<noteq> - 1) data"
  have rows: "data = [\<lparr>cls = 0, row_fid = 0, row_wid = 0, fvals = [0]\<rparr>,
      \<lparr>cls = 0, row_fid = 0, row_wid = 1, fvals = [1]\<rparr>,
      \<lparr>cls = - 1, row_fid = 1, row_wid = 0, fvals = [126]\<rparr>]"
    by (simp add: data_def ex_training_rows_unlabelled)
  have lab: "labelled = [\<lparr>cls = 0, row_fid = 0, row_wid = 0, fvals = [0]\<rparr>,
        \<lparr>cls = 0, row_fid = 0, row_wid = 1, fvals = [1]\<rparr>]"
    by (simp add: labelled_def rows)
  have c: "col_vals 0 data = [0, 1, 126]" by (simp add: rows col_vals_def)
  have i0: "0 < length [\<lambda>x::real. x]" by simp
  note t = estimate_extrema_over_all_rows
    [OF st' [unfolded ex_estimator_def] data_def [unfolded ex_estimator_def] i0 labelled_def
      refl refl]
  from t have a: "feature_bin_mins st' ! 0 = Min (set (col_vals 0 data))"
    and b: "feature_bin_mins st' ! 0 + 63 * feature_bin_deltas st' ! 0 = Max (set (col_vals 0 data))"
    by blast+
  then have mn: "feature_bin_mins st' ! 0 = 0"
    and mx: "feature_bin_mins st' ! 0 + 63 * feature_bin_deltas st' ! 0 = 126"
    by (simp_all add: c)
  then have w: "feature_bin_deltas st' ! 0 = 2" by simp
  have dj: "distinct [''junk'']" and l0: "(0::nat) < length [''junk'']"
    and j0: "(0::nat) < 63" and j62: "(62::nat) < 63" by simp_all
  from t dj l0 have e: "\<forall>j < 63.
                  the (distributions st' ([''junk''] ! 0)) ! 0 ! j =
                    log 2 ((real (length (filter (\<lambda>x. feature_bin_mins st' ! 0 + real j * feature_bin_deltas st' ! 0 \<le> x \<and>
                                     (if j = 62 then x \<le> feature_bin_mins st' ! 0 + 63 * feature_bin_deltas st' ! 0
                                      else x < feature_bin_mins st' ! 0 + real (j + 1) * feature_bin_deltas st' ! 0))
                               (col_vals 0 (filter (\<lambda>r. cls r = int 0) labelled)))) + 1) /
                           (real (length (filter (\<lambda>r. cls r = int 0) labelled)) + 63))"
    by blast
  from e j0 have "the (distributions st' ([''junk''] ! 0)) ! 0 ! 0 =
                    log 2 ((real (length (filter (\<lambda>x. feature_bin_mins st' ! 0 + real (0::nat) * feature_bin_deltas st' ! 0 \<le> x \<and>
                                     (if (0::nat) = 62 then x \<le> feature_bin_mins st' ! 0 + 63 * feature_bin_deltas st' ! 0
                                      else x < feature_bin_mins st' ! 0 + real ((0::nat) + 1) * feature_bin_deltas st' ! 0))
                               (col_vals 0 (filter (\<lambda>r. cls r = int 0) labelled)))) + 1) /
                           (real (length (filter (\<lambda>r. cls r = int 0) labelled)) + 63))"
    by blast
  then have e0: "the (distributions st' ''junk'') ! 0 ! 0 = log 2 (3 / 65)"
    by (simp add: mn w lab col_vals_def)
  from e j62 have "the (distributions st' ([''junk''] ! 0)) ! 0 ! 62 =
                    log 2 ((real (length (filter (\<lambda>x. feature_bin_mins st' ! 0 + real (62::nat) * feature_bin_deltas st' ! 0 \<le> x \<and>
                                     (if (62::nat) = 62 then x \<le> feature_bin_mins st' ! 0 + 63 * feature_bin_deltas st' ! 0
                                      else x < feature_bin_mins st' ! 0 + real ((62::nat) + 1) * feature_bin_deltas st' ! 0))
                               (col_vals 0 (filter (\<lambda>r. cls r = int 0) labelled)))) + 1) /
                           (real (length (filter (\<lambda>r. cls r = int 0) labelled)) + 63))"
    by blast
  then have e62: "the (distributions st' ''junk'') ! 0 ! 62 = log 2 (1 / 65)"
    by (simp add: mn w lab col_vals_def)
  from st' mn w mx lab e0 e62 show ?thesis
    unfolding labelled_def data_def by blast
qed

text \<open>
  C3 as stated fails on that table: the rows with ground truth have the extrema 0 and
  1, but the stored minimum and width are 0 and 2 (the range 0 to 126 of all rows).
\<close>
theorem estimate_extrema_over_all_rows_counterexample:
  "map_sum id (\<lambda>st'. (feature_bin_mins st', feature_bin_deltas st'))
     (estimate ex_estimator [] [] (Some ex_rows_unlabelled)) = Inr ([0], [2]) \<and>
   Min (set (col_vals 0 (filter (\<lambda>r. cls r \<noteq> - 1)
          (training_rows ex_estimator [] [] (Some ex_rows_unlabelled))))) = 0 \<and>
   Max (set (col_vals 0 (filter (\<lambda>r. cls r \<noteq> - 1)
          (training_rows ex_estimator [] [] (Some ex_rows_unlabelled))))) = 1"
proof -
  from ex_estimate_unlabelled_returns obtain st' where
    st': "estimate ex_estimator [] [] (Some ex_rows_unlabelled) = Inr st'" by blast
  define data where "data = training_rows ex_estimator [] [] (Some ex_rows_unlabelled)"
  have c: "col_vals 0 data = [0, 1, 126]"
    by (simp add: data_def ex_training_rows_unlabelled col_vals_def)
  note fr = estimate_fresh [OF st' [unfolded ex_estimator_def] data_def [unfolded ex_estimator_def]]
  have "feature_bin_deltas st' ! 0 = 2" "feature_bin_mins st' ! 0 = 0"
    using fr(6) [of 0] by (simp_all add: bin_edges_nth c)
  then have "feature_bin_deltas st' = [2]" "feature_bin_mins st' = [0]"
    using fr(3,4) by (simp_all add: singleton_list)
  then show ?thesis using st'
    by (simp add: ex_training_rows_unlabelled col_vals_def)
qed

subsection \<open>Stored histograms are distributions\<close>

text \<open>
  C4.  In an estimator on which \<^verbatim>\<open>estimate\<close> has returned (once or several
  times), every stored histogram is the elementwise log2 of 63 bin probabilities that
  are all strictly positive and sum to 1; raising 2 to the stored values gives these
  probabilities back, so they sum to 1. (Numbers are real numbers here, so the sum is
  exactly 1.)
\<close>
theorem fitted_histograms_stochastic:
  assumes "fitted st" and "distributions st s = Some hs" and "h \<in> set hs"
  shows "\<exists>ps. h = map (log 2) ps \<and> length ps = 63 \<and> (\<forall>p \<in> set ps. 0 < p) \<and>
           sum_list ps = 1 \<and> map (\<lambda>x. 2 powr x) h = ps \<and> (\<Sum>x\<leftarrow>h. 2 powr x) = 1"
  using assms
proof (induction arbitrary: hs rule: fitted.induct)
  case (fresh feats sts clf)
  then show ?case by (simp add: init_distributions split: if_splits)
next
  case (again st wvd tr dopt st')
  define data where "data = training_rows st wvd tr dopt"
  from estimate_result(6) [OF again.hyps(2) data_def, of s] again.prems(1)
  obtain old where old: "distributions st s = Some old"
    and hs: "hs = old @ feature_hists data [0..<length (features st)] (states st) s"
    by (auto split: option.splits)
  show ?case
  proof (cases "h \<in> set old")
    case True
    with again.IH [OF old] show ?thesis .
  next
    case False
    with again.prems(2) hs
    have "h \<in> set (feature_hists data [0..<length (features st)] (states st) s)" by simp
    then obtain i k where h: "h = log2_hist data (col_vals i data) (bin_edges i data) k"
      using feature_hists_elem by blast
    let ?ps = "bin_probs data (col_vals i data) (bin_edges i data) k"
    have b: "2 \<le> length (bin_edges i data)" by (simp add: length_bin_edges)
    note props = bin_probs_props [OF b, of data "col_vals i data" k]
    have pw: "map (\<lambda>x. 2 powr x) h = ?ps"
      unfolding h log2_hist_def using props(2) by (simp add: map_idI)
    have "(\<Sum>x\<leftarrow>h. 2 powr x) = 1" using pw props(3) by simp
    with props pw h show ?thesis
      by (intro exI [of _ ?ps]) (simp add: log2_hist_def length_bin_edges)
  qed
qed

text \<open>
  The fitted example holds one such histogram.
\<close>
theorem fitted_histograms_stochastic_witness:
  "\<exists>st' h. estimate ex_estimator [] [] (Some ex_rows) = Inr st' \<and> fitted st' \<and>
     distributions st' ''junk'' = Some [h] \<and> length h = 63 \<and> (\<Sum>x\<leftarrow>h. 2 powr x) = 1"
proof -
  from ex_fitted obtain st' h where
    st': "estimate ex_estimator [] [] (Some ex_rows) = Inr st'"
    and h: "distributions st' ''junk'' = Some [h]" by blast
  have f: "fitted st'"
    by (rule fitted.again [OF _ st']) (simp add: ex_estimator_def fitted.fresh)
  from fitted_histograms_stochastic [OF f h]
  have "length h = 63 \<and> (\<Sum>x\<leftarrow>h. 2 powr x) = 1" by auto
  with st' f h show ?thesis by blast
qed

subsection \<open>Time-independent training\<close>

text \<open>
  C6 (the code at the failing input).  One labelled frame, 5, with the single segment 7:
  the start and end vectors are normalised (\<open>[0, -inf]\<close> in log2, that is
  \<open>[1, 0]\<close>), but no transition was counted, both rows of the transition matrix are
  \<open>0/0\<close>, and raising 2 to them gives nan, not a row that sums to 1.
\<close>
theorem train_time_independent_unseen_row_nan:
  "train_time_independent [(5, [(7, ())])] [(0, [(5, 7)])] =
     Inr ([Fin 0, NegInf], [[NaN, NaN], [NaN, NaN]], [Fin 0, NegInf]) \<and>
   map fl_exp2 [NaN, NaN] = [NaN, NaN]"
  by (simp add: train_time_independent_def EDTwoState_make_classifer_def traj_frames_def
      itertraj_def int_of_bool_def bump_def idx2_def normalize_log2_def fl_div_def fl_log2_def
      fl_exp2_def)

subsection \<open>Estimating twice\<close>

text \<open>
  C8 (the code at the failing input).  \<^verbatim>\<open>estimate\<close> appends its histograms to
  the lists of the states and \<^verbatim>\<open>evaluate\<close> reads the first one per feature.
  After fitting on two rows and then on three, the list holds the histogram of the first
  table before that of the second, and \<^verbatim>\<open>evaluate\<close> still answers
  \<open>log2 (1/65)\<close>, as after the first call, where an estimator fitted on the second
  table alone answers \<open>log2 (1/66)\<close>.
\<close>
theorem estimate_twice_reads_first_histograms:
  "\<exists>st1 st2 st h1 h2.
     estimate ex_estimator [] [] (Some ex_rows) = Inr st1 \<and>
     estimate st1 [] [] (Some ex_rows_more) = Inr st2 \<and>
     estimate ex_estimator [] [] (Some ex_rows_more) = Inr st \<and>
     distributions st1 ''junk'' = Some [h1] \<and>
     distributions st ''junk'' = Some [h2] \<and>
     distributions st2 ''junk'' = Some [h1, h2] \<and>
     evaluate st1 1 ''junk'' = Inr (log 2 (1 / 65)) \<and>
     evaluate st2 1 ''junk'' = Inr (log 2 (1 / 65)) \<and>
     evaluate st 1 ''junk'' = Inr (log 2 (1 / 66)) \<and>
     log 2 (1 / 65) \<noteq> (log 2 (1 / 66) :: real)"
proof -
  from ex_fitted obtain st1 h1 where st1: "estimate ex_estimator [] [] (Some ex_rows) = Inr st1"
    and f1: "features st1 = [\<lambda>x. x]" "states st1 = [''junk'']" "classifier st1 = ex_classifier"
      "feature_bin_deltas st1 = [1]" "feature_bin_mins st1 = [0]"
    and d1: "distributions st1 ''junk'' = Some [h1]" and l1: "length h1 = 63"
    and "h1 ! 1 = log 2 (1 / 65)"
    by blast
  then have v1: "h1 ! Suc 0 = log 2 (1 / 65)" by simp
  define data where "data = training_rows ex_estimator [] [] (Some ex_rows_more)"
  let ?h2 = "log2_hist data (col_vals 0 data) (bin_edges 0 data) 0"
  from ex_fitted_more obtain st where st: "estimate ex_estimator [] [] (Some ex_rows_more) = Inr st"
    and f: "features st = [\<lambda>x. x]" "feature_bin_deltas st = [1]" "feature_bin_mins st = [0]"
    and d: "distributions st ''junk'' = Some [?h2]" and l2: "length ?h2 = 63"
    and "?h2 ! 1 = log 2 (1 / 66)"
    unfolding data_def by blast
  then have v2: "?h2 ! Suc 0 = log 2 (1 / 66)" by simp
  have tr1: "training_rows st1 [] [] (Some ex_rows_more) = data"
    by (simp add: data_def training_rows_def reclassify_def f1 ex_estimator_def
        EmmissionDistributions_init_def)
  have rows: "data = [\<lparr>cls = 0, row_fid = 0, row_wid = 0, fvals = [0]\<rparr>,
      \<lparr>cls = 0, row_fid = 0, row_wid = 1, fvals = [0]\<rparr>,
      \<lparr>cls = 0, row_fid = 0, row_wid = 2, fvals = [63]\<rparr>]"
    by (simp add: data_def ex_training_rows_more)
  have c: "col_vals 0 data = [0, 0, 63]" by (simp add: rows col_vals_def)
  \<comment> \<open>the second call on the fitted estimator\<close>
  have "\<exists>st2. estimate_features data [0..<length (features st1)] st1 = Inr st2"
    by (rule estimate_features_returns) (auto simp: rows f1 d1)
  then obtain st2 where st2: "estimate st1 [] [] (Some ex_rows_more) = Inr st2"
    by (auto simp: estimate_def tr1)
  note r2 = estimate_result [OF st2 tr1 [symmetric]]
  have d2: "distributions st2 ''junk'' = Some [h1, ?h2]"
    using r2(6) [of "''junk''"] by (simp add: f1 d1)
  have b2: "feature_bin_deltas st2 = [1]" "feature_bin_mins st2 = [0]"
    using r2(4,5) r2(7) [of 0] by (simp_all add: f1 bin_edges_nth c singleton_list)
  have e2: "evaluate st2 1 ''junk'' = Inr (log 2 (1 / 65))"
    using r2(1) by (simp add: evaluate_def discritize_def feature_def f1 b2 d2 l1 py_index_def v1)
  have e: "evaluate st 1 ''junk'' = Inr (log 2 (1 / 66))"
    by (simp add: evaluate_def discritize_def feature_def f d l2 py_index_def v2)
  have e1: "evaluate st1 1 ''junk'' = Inr (log 2 (1 / 65))"
    by (simp add: evaluate_def discritize_def feature_def f1 d1 l1 py_index_def v1)
  have ne: "log 2 (1 / 65) \<noteq> (log 2 (1 / 66) :: real)" by (rule log2_neq) simp_all
  from st1 st2 st d1 d d2 e1 e2 e ne show ?thesis by blast
qed

subsection \<open>Values outside the fitted range\<close>

text \<open>
  C9 (the code at the failing input).  On the estimator fitted on the values 0, 0 and
  63 (range 0 to 63, 63 bins of width 1), the value -1 is below the range: its bin index
  is -1 and \<^verbatim>\<open>evaluate\<close> returns the entry of the last bin, the same number as
  for the value 62 and not the entry of the nearest bin, which the value 0 gets. The
  value 63, the maximum of the training table itself, has bin index 63 and raises
  IndexError.
\<close>
theorem evaluate_below_range_reads_last_bin:
  "\<exists>st' h. estimate ex_estimator [] [] (Some ex_rows_more) = Inr st' \<and>
     feature_bin_mins st' = [0] \<and> feature_bin_deltas st' = [1] \<and>
     distributions st' ''junk'' = Some [h] \<and> length h = 63 \<and>
     evaluate st' (- 1) ''junk'' = Inr (log 2 (2 / 66)) \<and>
     evaluate st' 62 ''junk'' = Inr (log 2 (2 / 66)) \<and>
     evaluate st' 0 ''junk'' = Inr (log 2 (3 / 66)) \<and>
     log 2 (2 / 66) \<noteq> (log 2 (3 / 66) :: real) \<and>
     evaluate st' 63 ''junk'' = Inl IndexError"
proof -
  from ex_fitted_more obtain st' h where
    st': "estimate ex_estimator [] [] (Some ex_rows_more) = Inr st'"
    and f: "features st' = [\<lambda>x. x]" "feature_bin_deltas st' = [1]" "feature_bin_mins st' = [0]"
    and d: "distributions st' ''junk'' = Some [h]" and l: "length h = 63"
    and v: "h ! 0 = log 2 (3 / 66)" "h ! 62 = log 2 (2 / 66)"
    by blast
  have fl: "\<lfloor>- 1 :: real\<rfloor> = - 1" by (simp add: floor_eq_iff)
  have "evaluate st' (- 1) ''junk'' = Inr (log 2 (2 / 66))"
    "evaluate st' 62 ''junk'' = Inr (log 2 (2 / 66))"
    "evaluate st' 0 ''junk'' = Inr (log 2 (3 / 66))"
    "evaluate st' 63 ''junk'' = Inl IndexError"
    by (simp_all add: evaluate_def discritize_def feature_def f d l py_index_def fl v)
  moreover have "log 2 (2 / 66) \<noteq> (log 2 (3 / 66) :: real)" by (rule log2_neq) simp_all
  ultimately show ?thesis using st' f d l by blast
qed

end
